theory Spec2Isabelle
  imports Complex_Main
begin

section \<open>Values\<close>

text \<open>
  The looping audio source of dRowAudio (\<open>dRowAudio_LoopingAudioSource.cpp\<close>) decorates
  an inner positionable source with a loop window. Sample positions are \<open>int64\<close> in the
  source and \<open>int\<close> here; times and the sample rate are \<open>double\<close> in the source and
  reals here, and the rounding of their product to a \<open>double\<close> is a parameter of
  \<open>setLoopTimesRounded\<close> below. Signed overflow has no defined behaviour in C++ and no
  counterpart in the model: every statement below is about runs whose intermediate
  values stay inside the \<open>int64\<close> range.
\<close>

datatype error = DivideByZero | AssertionFailed | BufferOverrun

text \<open>The conversion of a \<open>double\<close> to \<open>int64\<close> drops the fraction (towards zero).\<close>

definition truncToInt64 :: "real \<Rightarrow> int" where
  "truncToInt64 x = (if 0 \<le> x then \<lfloor>x\<rfloor> else \<lceil>x\<rceil>)"

text \<open>
  The operator \<open>%\<close> of C++ on a divisor other than zero: the quotient is truncated, so
  the remainder has the sign of the dividend. Division by zero is a branch of the caller.
\<close>

definition rem64 :: "int \<Rightarrow> int \<Rightarrow> int" where
  "rem64 a b = sgn a * (\<bar>a\<bar> mod \<bar>b\<bar>)"

section \<open>Sample buffers\<close>

text \<open>
  JUCE's \<open>AudioSampleBuffer\<close>: a list of channels, every channel a list of samples of one
  length. The sample type stays a parameter, the code only moves samples. A write
  outside a channel is undefined behaviour in the source and \<open>BufferOverrun\<close> here.
\<close>

type_synonym 'a AudioSampleBuffer = "'a list list"

definition getNumChannels :: "'a AudioSampleBuffer \<Rightarrow> nat" where
  "getNumChannels b = length b"

definition getNumSamples :: "'a AudioSampleBuffer \<Rightarrow> nat" where
  "getNumSamples b = (case b of [] \<Rightarrow> 0 | ch # _ \<Rightarrow> length ch)"

text \<open>
  \<open>setSize\<close> reallocates and leaves the new content unspecified: the model takes that
  content as the parameter \<open>junk\<close> (channel, index).
\<close>

definition setSize :: "nat \<Rightarrow> nat \<Rightarrow> (nat \<Rightarrow> nat \<Rightarrow> 'a) \<Rightarrow> 'a AudioSampleBuffer" where
  "setSize newNumChannels newNumSamples junk =
     map (\<lambda>c. map (junk c) [0..<newNumSamples]) [0..<newNumChannels]"

definition writeAt :: "nat \<Rightarrow> 'a list \<Rightarrow> 'a list \<Rightarrow> 'a list" where
  "writeAt k new ch = take k ch @ new @ drop (k + length new) ch"

definition copyFrom ::
  "nat \<Rightarrow> int \<Rightarrow> 'a AudioSampleBuffer \<Rightarrow> nat \<Rightarrow> int \<Rightarrow> int \<Rightarrow> 'a AudioSampleBuffer
     \<Rightarrow> error + 'a AudioSampleBuffer" where
  "copyFrom destChannel destStartSample source sourceChannel sourceStartSample num dest =
     (if destChannel < getNumChannels dest \<and> sourceChannel < getNumChannels source
         \<and> 0 \<le> destStartSample \<and> 0 \<le> sourceStartSample
         \<and> destStartSample + num \<le> int (length (dest ! destChannel))
         \<and> sourceStartSample + num \<le> int (length (source ! sourceChannel))
      then Inr (if 0 < num
                then dest[destChannel :=
                       writeAt (nat destStartSample)
                         (take (nat num) (drop (nat sourceStartSample) (source ! sourceChannel)))
                         (dest ! destChannel)]
                else dest)
      else Inl BufferOverrun)"

record 'a AudioSourceChannelInfo =
  buffer :: "'a AudioSampleBuffer"
  startSample :: int
  numSamples :: int

section \<open>The inner source\<close>

text \<open>
  \<open>PositionableAudioSource\<close> is an interface: the looping source reaches its input only
  through these virtual calls, so the model takes them as a record of functions over the
  input's state \<open>'src\<close>.
\<close>

record ('src, 'a) PositionableAudioSource =
  src_prepareToPlay :: "int \<Rightarrow> real \<Rightarrow> 'src \<Rightarrow> 'src"
  src_releaseResources :: "'src \<Rightarrow> 'src"
  src_getNextAudioBlock ::
    "'a AudioSourceChannelInfo \<Rightarrow> 'src \<Rightarrow> error + ('a AudioSampleBuffer \<times> 'src)"
  src_setNextReadPosition :: "int \<Rightarrow> 'src \<Rightarrow> 'src"
  src_getNextReadPosition :: "'src \<Rightarrow> int"
  src_getTotalLength :: "'src \<Rightarrow> int"
  src_isLooping :: "'src \<Rightarrow> bool"

text \<open>
  A source that knows a sample for every position of every channel and whose whole state
  is its cursor: a block of \<open>n > 0\<close> samples is the samples at the cursor and the
  \<open>n - 1\<close> positions after it, and moves the cursor by \<open>n\<close>; a block of no samples does
  nothing. The plain ramp emits the position itself.
\<close>

definition mapChannels ::
  "(nat \<Rightarrow> 'a list \<Rightarrow> 'a list) \<Rightarrow> 'a AudioSampleBuffer \<Rightarrow> 'a AudioSampleBuffer" where
  "mapChannels f b = map (\<lambda>(c, ch). f c ch) (enumerate 0 b)"

definition positionalBlock ::
  "(nat \<Rightarrow> int \<Rightarrow> 'a) \<Rightarrow> 'a AudioSourceChannelInfo \<Rightarrow> int
     \<Rightarrow> error + ('a AudioSampleBuffer \<times> int)" where
  "positionalBlock content info pos =
     (if 0 < numSamples info
      then (if 0 \<le> startSample info
               \<and> list_all (\<lambda>ch. startSample info + numSamples info \<le> int (length ch))
                    (buffer info)
            then Inr (mapChannels
                        (\<lambda>c. writeAt (nat (startSample info))
                                (map (content c) [pos..pos + numSamples info - 1]))
                        (buffer info),
                      pos + numSamples info)
            else Inl BufferOverrun)
      else Inr (buffer info, pos))"

definition positionalSource :: "(nat \<Rightarrow> int \<Rightarrow> 'a) \<Rightarrow> (int, 'a) PositionableAudioSource" where
  "positionalSource content =
     \<lparr> src_prepareToPlay = (\<lambda>samplesPerBlockExpected sampleRate pos. pos),
       src_releaseResources = (\<lambda>pos. pos),
       src_getNextAudioBlock = positionalBlock content,
       src_setNextReadPosition = (\<lambda>newPosition pos. newPosition),
       src_getNextReadPosition = (\<lambda>pos. pos),
       src_getTotalLength = (\<lambda>pos. 0),
       src_isLooping = (\<lambda>pos. False) \<rparr>"

definition rampSource :: "(int, int) PositionableAudioSource" where
  "rampSource = positionalSource (\<lambda>c pos. pos)"

section \<open>LoopingAudioSource\<close>

text \<open>
  The fields of the class. \<open>tempInfo.buffer\<close> always points at \<open>tempBuffer\<close>, so only the
  other two fields of \<open>tempInfo\<close> are kept; they are 32-bit in the source and \<open>int\<close> here,
  which is the same for the lengths of a block that the buffers hold. The lock
  \<open>loopPosLock\<close> has no counterpart: the model is sequential.
\<close>

record ('src, 'a) LoopingAudioSource =
  input :: 'src
  isLoopingBetweenTimes :: bool
  loopStartTime :: real
  loopEndTime :: real
  loopStartSample :: int
  loopEndSample :: int
  currentSampleRate :: real
  tempBuffer :: "'a AudioSampleBuffer"
  tempInfo_startSample :: int
  tempInfo_numSamples :: int

text \<open>
  The constructor initialises neither the loop times nor the sample rate: they are
  parameters here, as is the content of the fresh scratch buffer.
\<close>

definition newLoopingAudioSource ::
  "'src \<Rightarrow> real \<Rightarrow> real \<Rightarrow> real \<Rightarrow> (nat \<Rightarrow> nat \<Rightarrow> 'a) \<Rightarrow> ('src, 'a) LoopingAudioSource" where
  "newLoopingAudioSource inputSource t0 t1 rate junk =
     \<lparr> input = inputSource,
       isLoopingBetweenTimes = False,
       loopStartTime = t0,
       loopEndTime = t1,
       loopStartSample = 0,
       loopEndSample = 0,
       currentSampleRate = rate,
       tempBuffer = setSize 2 512 junk,
       tempInfo_startSample = 0,
       tempInfo_numSamples = int (getNumSamples (setSize 2 512 junk)) \<rparr>"

definition getNextReadPosition ::
  "('src, 'a) PositionableAudioSource \<Rightarrow> ('src, 'a) LoopingAudioSource \<Rightarrow> int" where
  "getNextReadPosition ops s = src_getNextReadPosition ops (input s)"

definition getTotalLength ::
  "('src, 'a) PositionableAudioSource \<Rightarrow> ('src, 'a) LoopingAudioSource \<Rightarrow> int" where
  "getTotalLength ops s = src_getTotalLength ops (input s)"

definition isLooping ::
  "('src, 'a) PositionableAudioSource \<Rightarrow> ('src, 'a) LoopingAudioSource \<Rightarrow> bool" where
  "isLooping ops s = src_isLooping ops (input s)"

definition setLoopBetweenTimes ::
  "bool \<Rightarrow> ('src, 'a) LoopingAudioSource \<Rightarrow> ('src, 'a) LoopingAudioSource" where
  "setLoopBetweenTimes shouldLoop s = s\<lparr>isLoopingBetweenTimes := shouldLoop\<rparr>"

definition getLoopBetweenTimes :: "('src, 'a) LoopingAudioSource \<Rightarrow> bool" where
  "getLoopBetweenTimes s = isLoopingBetweenTimes s"

text \<open>
  \<open>setNextReadPosition\<close> rewrites its parameter \<open>newPosition\<close> in place and then forwards
  it: \<open>wrappedPosition\<close> is the parameter's value at the forwarding call.
\<close>

definition wrappedPosition ::
  "('src, 'a) PositionableAudioSource \<Rightarrow> int \<Rightarrow> ('src, 'a) LoopingAudioSource \<Rightarrow> int" where
  "wrappedPosition ops newPosition s =
     (if isLoopingBetweenTimes s
         \<and> getNextReadPosition ops s > loopStartSample s
         \<and> getNextReadPosition ops s < loopEndSample s
      then (let numLoopSamples = loopEndSample s - loopStartSample s
            in if newPosition > loopEndSample s
               then loopStartSample s + rem64 (newPosition - loopEndSample s) numLoopSamples
               else if newPosition < loopStartSample s
               then loopEndSample s - rem64 (loopStartSample s - newPosition) numLoopSamples
               else newPosition)
      else newPosition)"

definition setNextReadPosition ::
  "('src, 'a) PositionableAudioSource \<Rightarrow> int \<Rightarrow> ('src, 'a) LoopingAudioSource
     \<Rightarrow> ('src, 'a) LoopingAudioSource" where
  "setNextReadPosition ops newPosition s =
     s\<lparr>input := src_setNextReadPosition ops (wrappedPosition ops newPosition s) (input s)\<rparr>"

text \<open>
  Modelled from the spec: the macro \<open>jassert\<close> (JUCE's, not in the repository's files). The
  spec calls a violated precondition a fatal failure caught by assertion checking in
  debug builds and unchecked in release builds; \<open>debug\<close> says which build runs.

  The product of two \<open>double\<close>s is their exact product rounded to the nearest
  \<open>double\<close>, and that value is what the conversion to \<open>int64\<close> truncates.
  \<open>setLoopTimesRounded\<close> takes the rounding as the parameter \<open>roundToDouble\<close>.
  \<open>setLoopTimes\<close> is the call whose two products are \<open>double\<close>s themselves and need no
  rounding, such as 10 seconds at 44100 samples per second.
\<close>

definition setLoopTimesRounded ::
  "(real \<Rightarrow> real) \<Rightarrow> bool \<Rightarrow> ('src, 'a) PositionableAudioSource \<Rightarrow> real \<Rightarrow> real
     \<Rightarrow> ('src, 'a) LoopingAudioSource \<Rightarrow> error + ('src, 'a) LoopingAudioSource" where
  "setLoopTimesRounded roundToDouble debug ops startTime endTime s =
     (if debug \<and> \<not> endTime > startTime then Inl AssertionFailed
      else (let s1 = s\<lparr>loopStartTime := startTime,
                       loopEndTime := endTime,
                       loopStartSample :=
                         truncToInt64 (roundToDouble (startTime * currentSampleRate s)),
                       loopEndSample :=
                         truncToInt64 (roundToDouble (endTime * currentSampleRate s))\<rparr>
            in Inr (setNextReadPosition ops (getNextReadPosition ops s1) s1)))"

definition setLoopTimes ::
  "bool \<Rightarrow> ('src, 'a) PositionableAudioSource \<Rightarrow> real \<Rightarrow> real \<Rightarrow> ('src, 'a) LoopingAudioSource
     \<Rightarrow> error + ('src, 'a) LoopingAudioSource" where
  "setLoopTimes debug ops startTime endTime s =
     setLoopTimesRounded (\<lambda>product. product) debug ops startTime endTime s"

definition prepareToPlay ::
  "('src, 'a) PositionableAudioSource \<Rightarrow> (nat \<Rightarrow> nat \<Rightarrow> 'a) \<Rightarrow> int \<Rightarrow> real
     \<Rightarrow> ('src, 'a) LoopingAudioSource \<Rightarrow> ('src, 'a) LoopingAudioSource" where
  "prepareToPlay ops junk samplesPerBlockExpected sampleRate s =
     (let s1 = s\<lparr>currentSampleRate := sampleRate,
                 input := src_prepareToPlay ops samplesPerBlockExpected sampleRate (input s)\<rparr>
      in if int (getNumSamples (tempBuffer s1)) < samplesPerBlockExpected
         then (let resized = setSize 2 (nat samplesPerBlockExpected) junk
               in s1\<lparr>tempBuffer := resized,
                     tempInfo_numSamples := int (getNumSamples resized)\<rparr>)
         else s1)"

definition releaseResources ::
  "('src, 'a) PositionableAudioSource \<Rightarrow> ('src, 'a) LoopingAudioSource
     \<Rightarrow> ('src, 'a) LoopingAudioSource" where
  "releaseResources ops s = s\<lparr>input := src_releaseResources ops (input s)\<rparr>"

text \<open>The loop over the channels of the caller's buffer that copies the scratch data out.\<close>

fun copyChannels ::
  "nat list \<Rightarrow> int \<Rightarrow> 'a AudioSampleBuffer \<Rightarrow> int \<Rightarrow> 'a AudioSampleBuffer
     \<Rightarrow> error + 'a AudioSampleBuffer" where
  "copyChannels [] destStart source num dest = Inr dest"
| "copyChannels (i # rest) destStart source num dest =
     (case copyFrom i destStart source i 0 num dest of
        Inl e \<Rightarrow> Inl e
      | Inr dest' \<Rightarrow> copyChannels rest destStart source num dest')"

definition getNextAudioBlock ::
  "('src, 'a) PositionableAudioSource \<Rightarrow> 'a AudioSourceChannelInfo
     \<Rightarrow> ('src, 'a) LoopingAudioSource
     \<Rightarrow> error + ('a AudioSampleBuffer \<times> ('src, 'a) LoopingAudioSource)" where
  "getNextAudioBlock ops info s =
     (if 0 < numSamples info
      then (if isLoopingBetweenTimes s
            then (let newStart = getNextReadPosition ops s
                  in if loopEndSample s = 0 then Inl DivideByZero
                     else (let newEnd = loopStartSample s
                                 + rem64 (newStart + numSamples info) (loopEndSample s)
                           in if newEnd > newStart
                              then (case src_getNextAudioBlock ops info (input s) of
                                      Inl e \<Rightarrow> Inl e
                                    | Inr (out, inp) \<Rightarrow> Inr (out, s\<lparr>input := inp\<rparr>))
                              else (let numEndSamps = loopEndSample s - newStart;
                                        numStartSamps = newEnd - loopStartSample s
                                    in case src_getNextAudioBlock ops
                                              \<lparr>buffer = tempBuffer s, startSample = 0,
                                               numSamples = numEndSamps\<rparr> (input s) of
                                         Inl e \<Rightarrow> Inl e
                                       | Inr (temp1, inp1) \<Rightarrow>
                                          (case src_getNextAudioBlock ops
                                                  \<lparr>buffer = temp1, startSample = numEndSamps,
                                                   numSamples = numStartSamps\<rparr>
                                                  (src_setNextReadPosition ops
                                                     (loopStartSample s) inp1) of
                                             Inl e \<Rightarrow> Inl e
                                           | Inr (temp2, inp2) \<Rightarrow>
                                              (case copyChannels
                                                      [0..<getNumChannels (buffer info)]
                                                      (startSample info) temp2
                                                      (numSamples info) (buffer info) of
                                                 Inl e \<Rightarrow> Inl e
                                               | Inr out \<Rightarrow>
                                                  Inr (out,
                                                       s\<lparr>input := inp2,
                                                         tempBuffer := temp2,
                                                         tempInfo_startSample := numEndSamps,
                                                         tempInfo_numSamples :=
                                                           numSamples info\<rparr>))))))
            else (case src_getNextAudioBlock ops info (input s) of
                    Inl e \<Rightarrow> Inl e
                  | Inr (out, inp) \<Rightarrow> Inr (out, s\<lparr>input := inp\<rparr>)))
      else Inr (buffer info, s))"

section \<open>Runs and examples\<close>

text \<open>A run of \<open>prepareToPlay\<close> calls, each with its block size and sample rate.\<close>

fun prepareAll ::
  "('src, 'a) PositionableAudioSource \<Rightarrow> (nat \<Rightarrow> nat \<Rightarrow> 'a) \<Rightarrow> (int \<times> real) list
     \<Rightarrow> ('src, 'a) LoopingAudioSource \<Rightarrow> ('src, 'a) LoopingAudioSource" where
  "prepareAll ops junk [] s = s"
| "prepareAll ops junk ((n, rate) # calls) s =
     prepareAll ops junk calls (prepareToPlay ops junk n rate s)"

text \<open>
  What a request needs from the buffers: the caller's channels hold the block at its
  offset, the scratch buffer has a channel for each of them, and every scratch channel
  holds a whole block (\<open>prepareToPlay\<close> was called with a block size that large).
\<close>

definition blockFits :: "'a AudioSourceChannelInfo \<Rightarrow> 'a AudioSampleBuffer \<Rightarrow> bool" where
  "blockFits info temp =
     (0 \<le> startSample info
      \<and> list_all (\<lambda>ch. startSample info + numSamples info \<le> int (length ch)) (buffer info)
      \<and> getNumChannels (buffer info) \<le> getNumChannels temp
      \<and> list_all (\<lambda>ch. numSamples info \<le> int (length ch)) temp)"

text \<open>
  Successive \<open>getNextAudioBlock\<close> calls, one per request; the result is what the calls
  wrote for channel \<open>c\<close>, one block after the other.
\<close>

fun playBlocks ::
  "('src, 'a) PositionableAudioSource \<Rightarrow> nat \<Rightarrow> 'a AudioSourceChannelInfo list
     \<Rightarrow> ('src, 'a) LoopingAudioSource \<Rightarrow> error + ('a list \<times> ('src, 'a) LoopingAudioSource)" where
  "playBlocks ops c [] s = Inr ([], s)"
| "playBlocks ops c (info # infos) s =
     (case getNextAudioBlock ops info s of
        Inl e \<Rightarrow> Inl e
      | Inr (out, s1) \<Rightarrow>
         (case playBlocks ops c infos s1 of
            Inl e \<Rightarrow> Inl e
          | Inr (rest, s2) \<Rightarrow>
             Inr (take (nat (numSamples info)) (drop (nat (startSample info)) (out ! c)) @ rest,
                  s2)))"

text \<open>
  Gapless looped playback of a ramp: after the position \<open>p\<close> comes \<open>p + 1\<close>, but for
  \<open>loopEndSample - 1\<close>, which \<open>loopStartSample\<close> follows.
\<close>

definition nextPos :: "int \<Rightarrow> int \<Rightarrow> int \<Rightarrow> int" where
  "nextPos lo hi p = (if p + 1 = hi then lo else p + 1)"

fun seamless :: "int \<Rightarrow> int \<Rightarrow> int list \<Rightarrow> bool" where
  "seamless lo hi (x # y # rest) = (y = nextPos lo hi x \<and> seamless lo hi (y # rest))"
| "seamless lo hi rest = True"

primrec loopPositions :: "int \<Rightarrow> int \<Rightarrow> int \<Rightarrow> nat \<Rightarrow> int list" where
  "loopPositions lo hi p 0 = []"
| "loopPositions lo hi p (Suc k) = p # loopPositions lo hi (nextPos lo hi p) k"

primrec advance :: "int \<Rightarrow> int \<Rightarrow> int \<Rightarrow> nat \<Rightarrow> int" where
  "advance lo hi p 0 = p"
| "advance lo hi p (Suc k) = advance lo hi (nextPos lo hi p) k"

text \<open>
  A ramp player at sample rate 1 with the constructor's scratch buffer (its content
  taken as zeros), looping over the samples from \<open>lo\<close> to \<open>hi\<close>, its input's cursor at
  \<open>cursor\<close>.
\<close>

definition silence :: "nat \<Rightarrow> nat \<Rightarrow> int" where
  "silence c i = 0"

definition rampLooper :: "int \<Rightarrow> int \<Rightarrow> int \<Rightarrow> (int, int) LoopingAudioSource" where
  "rampLooper lo hi cursor =
     \<lparr> input = cursor,
       isLoopingBetweenTimes = True,
       loopStartTime = of_int lo,
       loopEndTime = of_int hi,
       loopStartSample = lo,
       loopEndSample = hi,
       currentSampleRate = 1,
       tempBuffer = setSize 2 512 silence,
       tempInfo_startSample = 0,
       tempInfo_numSamples = 512 \<rparr>"

text \<open>The position-setting laws of a well-behaved input.\<close>

definition seekToCursorIsNoop :: "('src, 'a) PositionableAudioSource \<Rightarrow> bool" where
  "seekToCursorIsNoop ops =
     (\<forall>i. src_setNextReadPosition ops (src_getNextReadPosition ops i) i = i)"

section \<open>The scratch buffer\<close>

lemma getNumSamples_setSize: "getNumSamples (setSize (Suc k) n junk) = n"
  by (simp add: getNumSamples_def setSize_def upt_conv_Cons del: upt_Suc)

lemma capacity_prepareToPlay:
  "int (getNumSamples (tempBuffer (prepareToPlay ops junk n rate s)))
     = max (int (getNumSamples (tempBuffer s))) n"
proof (cases "int (getNumSamples (tempBuffer s)) < n")
  case True
  then have "0 \<le> n" by linarith
  with True show ?thesis
    by (simp add: prepareToPlay_def Let_def getNumSamples_setSize numeral_2_eq_2)
next
  case False
  then show ?thesis by (simp add: prepareToPlay_def Let_def)
qed

lemma capacity_prepareAll:
  "int (getNumSamples (tempBuffer (prepareAll ops junk calls s)))
     = Max (insert (int (getNumSamples (tempBuffer s))) (fst ` set calls))"
proof (induction calls arbitrary: s)
  case Nil
  show ?case by simp
next
  case (Cons call calls)
  obtain n rate where call: "call = (n, rate)" by (cases call)
  let ?c = "int (getNumSamples (tempBuffer s))"
  have "Max (insert (max ?c n) (fst ` set calls)) = Max (insert ?c (insert n (fst ` set calls)))"
  proof -
    have "Max (insert ?c (insert n (fst ` set calls))) = max ?c (Max (insert n (fst ` set calls)))"
      by (rule Max_insert) simp_all
    also have "\<dots> = Max (insert (max ?c n) (fst ` set calls))"
      by (cases "fst ` set calls = {}") (simp_all add: max.assoc)
    finally show ?thesis by simp
  qed
  with Cons.IH [of "prepareToPlay ops junk n rate s"] show ?case
    by (simp add: call capacity_prepareToPlay)
qed

text \<open>
  Claim C9. \<open>prepareToPlay\<close> replaces the scratch buffer only when the expected block size
  exceeds its capacity, and then by one of exactly that size; otherwise the buffer is
  the one it was. So the capacity never decreases, and after any run of calls it is the
  largest of the capacity before the run and the block sizes of the run; counted from the
  constructor, whose scratch buffer holds 512 samples, it is the largest of 512 and the
  block sizes.
\<close>

theorem scratch_capacity_never_shrinks:
  "tempBuffer (prepareToPlay ops junk n rate s)
     = (if int (getNumSamples (tempBuffer s)) < n then setSize 2 (nat n) junk else tempBuffer s)
   \<and> getNumSamples (tempBuffer s) \<le> getNumSamples (tempBuffer (prepareToPlay ops junk n rate s))
   \<and> int (getNumSamples (tempBuffer (prepareAll ops junk calls s)))
       = Max (insert (int (getNumSamples (tempBuffer s))) (fst ` set calls))
   \<and> int (getNumSamples (tempBuffer
         (prepareAll ops junk calls (newLoopingAudioSource inputSource t0 t1 r junk))))
       = Max (insert 512 (fst ` set calls))"
proof -
  have a: "tempBuffer (prepareToPlay ops junk n rate s)
     = (if int (getNumSamples (tempBuffer s)) < n then setSize 2 (nat n) junk else tempBuffer s)"
    by (simp add: prepareToPlay_def Let_def)
  have b: "getNumSamples (tempBuffer s)
             \<le> getNumSamples (tempBuffer (prepareToPlay ops junk n rate s))"
    using capacity_prepareToPlay [of ops junk n rate s] by linarith
  have c: "int (getNumSamples (tempBuffer (newLoopingAudioSource inputSource t0 t1 r junk)))
             = 512"
    by (simp add: newLoopingAudioSource_def getNumSamples_setSize numeral_2_eq_2)
  show ?thesis
    using a b capacity_prepareAll [of ops junk calls] c by simp
qed

section \<open>Looping disabled\<close>

text \<open>
  Claim C7. With looping disabled, a request for a positive number of samples is the
  input's own \<open>getNextAudioBlock\<close> on the same request, whatever the loop region: the
  output buffer is the one the input returns and the input is left in the state its own
  call left it in, with no repositioning by the looping source; an error of the input is
  passed on.
\<close>

theorem disabled_looping_forwards:
  assumes "\<not> isLoopingBetweenTimes s" and "0 < numSamples info"
  shows "getNextAudioBlock ops info s
           = (case src_getNextAudioBlock ops info (input s) of
                Inl e \<Rightarrow> Inl e
              | Inr (out, inp) \<Rightarrow> Inr (out, s\<lparr>input := inp\<rparr>))"
  using assms by (simp add: getNextAudioBlock_def)

theorem disabled_looping_forwards_witness:
  "\<not> isLoopingBetweenTimes (setLoopBetweenTimes False (rampLooper 0 4 2))
   \<and> 0 < numSamples \<lparr>buffer = [[9, 9, 9, 9, 9 :: int]], startSample = 0, numSamples = 5\<rparr>
   \<and> getNextAudioBlock rampSource
         \<lparr>buffer = [[9, 9, 9, 9, 9]], startSample = 0, numSamples = 5\<rparr>
         (setLoopBetweenTimes False (rampLooper 0 4 2))
       = Inr ([[2, 3, 4, 5, 6]], (setLoopBetweenTimes False (rampLooper 0 4 2))\<lparr>input := 7\<rparr>)"
  using disabled_looping_forwards
    [of "setLoopBetweenTimes False (rampLooper 0 4 2)"
        "\<lparr>buffer = [[9, 9, 9, 9, 9 :: int]], startSample = 0, numSamples = 5\<rparr>" rampSource]
  by (simp add: setLoopBetweenTimes_def rampLooper_def rampSource_def positionalSource_def
      positionalBlock_def mapChannels_def writeAt_def)

section \<open>Writing into buffers\<close>

lemma length_mapChannels: "length (mapChannels f b) = length b"
  by (simp add: mapChannels_def)

lemma nth_mapChannels: "c < length b \<Longrightarrow> mapChannels f b ! c = f c (b ! c)"
  by (simp add: mapChannels_def nth_enumerate_eq)

lemma mapChannels_cong:
  assumes "\<And>c. c < length b \<Longrightarrow> f c (b ! c) = g c (b ! c)"
  shows "mapChannels f b = mapChannels g b"
  by (rule nth_equalityI) (simp_all add: length_mapChannels nth_mapChannels assms)

lemma mapChannels_mapChannels:
  "mapChannels f (mapChannels g b) = mapChannels (\<lambda>c ch. f c (g c ch)) b"
  by (rule nth_equalityI) (simp_all add: length_mapChannels nth_mapChannels)

lemma mapChannels_id: "mapChannels (\<lambda>c ch. ch) b = b"
  by (rule nth_equalityI) (simp_all add: length_mapChannels nth_mapChannels)

lemma length_writeAt: "k + length new \<le> length ch \<Longrightarrow> length (writeAt k new ch) = length ch"
  by (simp add: writeAt_def)

lemma writeAt_writeAt:
  "length xs + length ys \<le> length ch
     \<Longrightarrow> writeAt (length xs) ys (writeAt 0 xs ch) = writeAt 0 (xs @ ys) ch"
  by (simp add: writeAt_def add.commute)

lemma take_writeAt_0: "take n (writeAt 0 xs ch) = take n xs @ take (n - length xs) (drop (length xs) ch)"
  by (simp add: writeAt_def)

lemma written_block:
  "k + length xs \<le> length ch \<Longrightarrow> take (length xs) (drop k (writeAt k xs ch)) = xs"
  by (simp add: writeAt_def)

lemma list_all_length_mapChannels:
  assumes "\<And>c. c < length b \<Longrightarrow> length (f c (b ! c)) = length (b ! c)"
  shows "map length (mapChannels f b) = map length b"
  by (rule nth_equalityI) (simp_all add: length_mapChannels nth_mapChannels assms)

lemma list_all_lengths:
  "list_all (\<lambda>ch. P (length ch)) b = list_all P (map length b)"
  by (simp add: list_all_iff)

lemma positionalBlock_writes:
  assumes "0 < numSamples info" and "0 \<le> startSample info"
    and "list_all (\<lambda>ch. startSample info + numSamples info \<le> int (length ch)) (buffer info)"
  shows "positionalBlock content info p
           = Inr (mapChannels
                    (\<lambda>c. writeAt (nat (startSample info))
                            (map (content c) [p..p + numSamples info - 1]))
                    (buffer info),
                  p + numSamples info)"
  using assms by (simp add: positionalBlock_def)

lemma positionalBlock_nothing:
  "numSamples info \<le> 0 \<Longrightarrow> positionalBlock content info p = Inr (buffer info, p)"
  by (simp add: positionalBlock_def)

lemma copyFrom_writes:
  assumes "i < length dest" and "i < length src" and "0 \<le> st" and "0 < n"
    and "st + n \<le> int (length (dest ! i))" and "n \<le> int (length (src ! i))"
  shows "copyFrom i st src i 0 n dest
           = Inr (dest[i := writeAt (nat st) (take (nat n) (src ! i)) (dest ! i)])"
  using assms by (simp add: copyFrom_def getNumChannels_def)

lemma copyChannels_some:
  assumes "distinct is" and "set is \<subseteq> {..<length dest}" and "length dest \<le> length src"
    and "0 \<le> st" and "0 < n"
    and "list_all (\<lambda>ch. st + n \<le> int (length ch)) dest"
    and "list_all (\<lambda>ch. n \<le> int (length ch)) src"
  shows "copyChannels is st src n dest
           = Inr (mapChannels
                    (\<lambda>c ch. if c \<in> set is then writeAt (nat st) (take (nat n) (src ! c)) ch else ch)
                    dest)"
  using assms(1,2,3,6)
proof (induction "is" arbitrary: dest)
  case Nil
  show ?case by (simp add: mapChannels_id)
next
  case (Cons i rest)
  let ?W = "\<lambda>c. writeAt (nat st) (take (nat n) (src ! c))"
  let ?dest' = "dest[i := ?W i (dest ! i)]"
  from Cons.prems have i: "i < length dest" "i < length src" "i \<notin> set rest" by auto
  from Cons.prems(4) i(1) have fit: "st + n \<le> int (length (dest ! i))"
    by (simp add: list_all_length)
  from assms(7) i(2) have src: "n \<le> int (length (src ! i))"
    by (simp add: list_all_length)
  have step: "copyFrom i st src i 0 n dest = Inr ?dest'"
    using i fit src assms(4,5) by (rule_tac copyFrom_writes) simp_all
  have len: "length (?W i (dest ! i)) = length (dest ! i)"
    using fit src assms(4,5) by (simp add: length_writeAt)
  have fits': "list_all (\<lambda>ch. st + n \<le> int (length ch)) ?dest'"
    using Cons.prems(4) i(1) len by (simp add: list_all_length nth_list_update)
  have "copyChannels rest st src n ?dest'
          = Inr (mapChannels (\<lambda>c ch. if c \<in> set rest then ?W c ch else ch) ?dest')"
    using Cons.prems fits' by (intro Cons.IH) auto
  moreover have "mapChannels (\<lambda>c ch. if c \<in> set rest then ?W c ch else ch) ?dest'
                   = mapChannels (\<lambda>c ch. if c \<in> set (i # rest) then ?W c ch else ch) dest"
    using i by (intro nth_equalityI) (auto simp: length_mapChannels nth_mapChannels nth_list_update)
  ultimately show ?case using step by simp
qed

lemma copyChannels_all:
  assumes "length dest \<le> length src" and "0 \<le> st" and "0 < n"
    and "list_all (\<lambda>ch. st + n \<le> int (length ch)) dest"
    and "list_all (\<lambda>ch. n \<le> int (length ch)) src"
  shows "copyChannels [0..<getNumChannels dest] st src n dest
           = Inr (mapChannels (\<lambda>c. writeAt (nat st) (take (nat n) (src ! c))) dest)"
proof -
  have "copyChannels [0..<length dest] st src n dest
          = Inr (mapChannels
                   (\<lambda>c ch. if c \<in> set [0..<length dest]
                            then writeAt (nat st) (take (nat n) (src ! c)) ch else ch) dest)"
    using assms by (intro copyChannels_some) auto
  moreover have "mapChannels
                   (\<lambda>c ch. if c \<in> set [0..<length dest]
                            then writeAt (nat st) (take (nat n) (src ! c)) ch else ch) dest
                 = mapChannels (\<lambda>c. writeAt (nat st) (take (nat n) (src ! c))) dest"
    by (rule mapChannels_cong) simp
  ultimately show ?thesis by (simp add: getNumChannels_def)
qed

section \<open>One block with looping enabled\<close>

lemma rem64_nonneg: "0 \<le> a \<Longrightarrow> 0 < b \<Longrightarrow> rem64 a b = a mod b"
  by (cases "a = 0") (simp_all add: rem64_def)

lemma list_all_mono_length:
  "list_all (\<lambda>ch. m \<le> int (length ch)) b \<Longrightarrow> k \<le> m
     \<Longrightarrow> list_all (\<lambda>ch. k \<le> int (length ch)) b"
  by (induction b) auto

lemma direct_branch:
  fixes s :: "(int, 'a) LoopingAudioSource"
  assumes "isLoopingBetweenTimes s" and "loopEndSample s \<noteq> 0"
    and "input s < loopStartSample s + rem64 (input s + numSamples info) (loopEndSample s)"
    and "0 < numSamples info" and "0 \<le> startSample info"
    and "list_all (\<lambda>ch. startSample info + numSamples info \<le> int (length ch)) (buffer info)"
  shows "getNextAudioBlock (positionalSource content) info s
           = Inr (mapChannels
                    (\<lambda>c. writeAt (nat (startSample info))
                            (map (content c) [input s..input s + numSamples info - 1]))
                    (buffer info),
                  s\<lparr>input := input s + numSamples info\<rparr>)"
  using assms
  by (simp add: getNextAudioBlock_def getNextReadPosition_def positionalSource_def
      positionalBlock_writes Let_def)

lemma split_branch:
  fixes s :: "(int, 'a) LoopingAudioSource"
  defines "p \<equiv> input s" and "lo \<equiv> loopStartSample s" and "hi \<equiv> loopEndSample s"
  assumes loop: "isLoopingBetweenTimes s" and hi0: "hi \<noteq> 0"
    and ne: "newEnd = lo + rem64 (p + numSamples info) hi"
    and cross: "newEnd \<le> p"
    and a: "0 < hi - p" and b: "0 \<le> newEnd - lo"
    and n: "0 < numSamples info" "numSamples info \<le> (hi - p) + (newEnd - lo)"
    and cap: "list_all (\<lambda>ch. (hi - p) + (newEnd - lo) \<le> int (length ch)) (tempBuffer s)"
    and dest: "0 \<le> startSample info"
      "list_all (\<lambda>ch. startSample info + numSamples info \<le> int (length ch)) (buffer info)"
      "getNumChannels (buffer info) \<le> getNumChannels (tempBuffer s)"
  shows "getNextAudioBlock (positionalSource content) info s
           = Inr (mapChannels
                    (\<lambda>c. writeAt (nat (startSample info))
                            (take (nat (numSamples info))
                               (map (content c) ([p..hi - 1] @ [lo..newEnd - 1]))))
                    (buffer info),
                  s\<lparr>input := newEnd,
                    tempBuffer := mapChannels
                       (\<lambda>c. writeAt 0 (map (content c) ([p..hi - 1] @ [lo..newEnd - 1])))
                       (tempBuffer s),
                    tempInfo_startSample := hi - p,
                    tempInfo_numSamples := numSamples info\<rparr>)"
proof -
  let ?tb = "tempBuffer s"
  let ?xs = "\<lambda>c. map (content c) [p..hi - 1]"
  let ?ys = "\<lambda>c. map (content c) [lo..newEnd - 1]"
  let ?temp1 = "mapChannels (\<lambda>c. writeAt 0 (?xs c)) ?tb"
  let ?temp2 = "mapChannels (\<lambda>c. writeAt 0 (?xs c @ ?ys c)) ?tb"
  have lenx: "\<And>c. length (?xs c) = nat (hi - p)" by simp
  have leny: "\<And>c. length (?ys c) = nat (newEnd - lo)" by simp
  have capc: "\<And>c. c < length ?tb \<Longrightarrow> (hi - p) + (newEnd - lo) \<le> int (length (?tb ! c))"
    using cap by (simp add: list_all_length)
  \<comment> \<open>the first read: the samples up to the loop end\<close>
  have cap1: "list_all (\<lambda>ch. hi - p \<le> int (length ch)) ?tb"
    by (rule list_all_mono_length [OF cap]) (use b in simp)
  have r1: "positionalBlock content \<lparr>buffer = ?tb, startSample = 0, numSamples = hi - p\<rparr> p
              = Inr (?temp1, hi)"
    using a cap1 positionalBlock_writes
      [of "\<lparr>buffer = ?tb, startSample = 0, numSamples = hi - p\<rparr>" content p]
    by simp
  have len1: "map length ?temp1 = map length ?tb"
  proof (rule list_all_length_mapChannels)
    fix c assume "c < length ?tb"
    from capc [OF this] b show "length (writeAt 0 (?xs c) (?tb ! c)) = length (?tb ! c)"
      by (simp add: length_writeAt)
  qed
  \<comment> \<open>the second read: the samples from the loop start\<close>
  have r2: "positionalBlock content
              \<lparr>buffer = ?temp1, startSample = hi - p, numSamples = newEnd - lo\<rparr> lo
              = Inr (?temp2, newEnd)"
  proof (cases "0 < newEnd - lo")
    case True
    have "list_all (\<lambda>ch. (hi - p) + (newEnd - lo) \<le> int (length ch)) ?temp1"
      using cap len1 by (simp add: list_all_lengths [of "\<lambda>k. (hi - p) + (newEnd - lo) \<le> int k"])
    with True a positionalBlock_writes
      [of "\<lparr>buffer = ?temp1, startSample = hi - p, numSamples = newEnd - lo\<rparr>" content lo]
    have "positionalBlock content
            \<lparr>buffer = ?temp1, startSample = hi - p, numSamples = newEnd - lo\<rparr> lo
          = Inr (mapChannels (\<lambda>c. writeAt (nat (hi - p)) (?ys c)) ?temp1, newEnd)"
      by simp
    moreover have "mapChannels (\<lambda>c. writeAt (nat (hi - p)) (?ys c)) ?temp1 = ?temp2"
      unfolding mapChannels_mapChannels
    proof (rule mapChannels_cong)
      fix c assume "c < length ?tb"
      from capc [OF this] a b
      have "length (?xs c) + length (?ys c) \<le> length (?tb ! c)" by simp
      from writeAt_writeAt [OF this]
      show "writeAt (nat (hi - p)) (?ys c) (writeAt 0 (?xs c) (?tb ! c))
              = writeAt 0 (?xs c @ ?ys c) (?tb ! c)"
        by simp
    qed
    ultimately show ?thesis by simp
  next
    case False
    with b have "newEnd = lo" by simp
    then show ?thesis by (simp add: positionalBlock_nothing)
  qed
  have len2: "map length ?temp2 = map length ?tb"
  proof (rule list_all_length_mapChannels)
    fix c assume "c < length ?tb"
    from capc [OF this] a b
    show "length (writeAt 0 (?xs c @ ?ys c) (?tb ! c)) = length (?tb ! c)"
      by (simp add: length_writeAt)
  qed
  \<comment> \<open>the copy into the caller's buffer\<close>
  have cap2: "list_all (\<lambda>ch. numSamples info \<le> int (length ch)) ?temp2"
  proof -
    have "list_all (\<lambda>ch. (hi - p) + (newEnd - lo) \<le> int (length ch)) ?temp2"
      using cap len2 by (simp add: list_all_lengths [of "\<lambda>k. (hi - p) + (newEnd - lo) \<le> int k"])
    then show ?thesis by (rule list_all_mono_length) (use n in simp)
  qed
  have chans: "length (buffer info) \<le> length ?temp2"
    using dest(3) by (simp add: getNumChannels_def length_mapChannels)
  have r3: "copyChannels [0..<getNumChannels (buffer info)] (startSample info) ?temp2
              (numSamples info) (buffer info)
            = Inr (mapChannels
                    (\<lambda>c. writeAt (nat (startSample info))
                            (take (nat (numSamples info)) (?xs c @ ?ys c)))
                    (buffer info))"
  proof -
    have "copyChannels [0..<getNumChannels (buffer info)] (startSample info) ?temp2
              (numSamples info) (buffer info)
          = Inr (mapChannels
                   (\<lambda>c. writeAt (nat (startSample info))
                           (take (nat (numSamples info)) (?temp2 ! c)))
                   (buffer info))"
      using chans dest(1) n(1) dest(2) cap2 by (rule copyChannels_all)
    moreover have "mapChannels
                     (\<lambda>c. writeAt (nat (startSample info))
                             (take (nat (numSamples info)) (?temp2 ! c)))
                     (buffer info)
                   = mapChannels
                      (\<lambda>c. writeAt (nat (startSample info))
                              (take (nat (numSamples info)) (?xs c @ ?ys c)))
                      (buffer info)"
    proof (rule mapChannels_cong)
      fix c assume "c < length (buffer info)"
      with chans have c: "c < length ?tb" by (simp add: length_mapChannels)
      have "nat (numSamples info) \<le> length (?xs c @ ?ys c)"
        using n a b by simp
      then have "take (nat (numSamples info)) (?temp2 ! c)
                   = take (nat (numSamples info)) (?xs c @ ?ys c)"
        using c by (simp add: nth_mapChannels take_writeAt_0 del: take_append map_append)
      then show "writeAt (nat (startSample info)) (take (nat (numSamples info)) (?temp2 ! c))
                   (buffer info ! c)
                 = writeAt (nat (startSample info))
                     (take (nat (numSamples info)) (?xs c @ ?ys c)) (buffer info ! c)"
        by simp
    qed
    ultimately show ?thesis by simp
  qed
  have branch: "\<not> p < lo + rem64 (p + numSamples info) hi"
    using cross ne by simp
  show ?thesis
    using loop hi0 n(1) branch r1 r2 r3
    by (simp add: getNextAudioBlock_def getNextReadPosition_def positionalSource_def Let_def
        p_def [symmetric] lo_def [symmetric] hi_def [symmetric] ne [symmetric])
qed

section \<open>Positions of looped playback\<close>

lemma length_loopPositions: "length (loopPositions lo hi p k) = k"
  by (induction k arbitrary: p) simp_all

lemma loopPositions_straight:
  "p + int k \<le> hi \<Longrightarrow> loopPositions lo hi p k = [p..p + int k - 1]"
proof (induction k arbitrary: p)
  case 0
  show ?case by simp
next
  case (Suc k)
  show ?case
  proof (cases k)
    case 0
    then show ?thesis by simp
  next
    case (Suc j)
    with Suc.prems have "nextPos lo hi p = p + 1" by (simp add: nextPos_def)
    moreover have "loopPositions lo hi (p + 1) k = [p + 1..p + 1 + int k - 1]"
      using Suc.prems by (intro Suc.IH) simp
    moreover have "[p..p + int (Suc k) - 1] = p # [p + 1..p + 1 + int k - 1]"
      by (simp add: upto_rec1 [of p] add.commute)
    ultimately show ?thesis by simp
  qed
qed

lemma advance_straight: "p + int k < hi \<Longrightarrow> advance lo hi p k = p + int k"
  by (induction k arbitrary: p) (simp_all add: nextPos_def)

lemma advance_to_end: "p + int (Suc k) = hi \<Longrightarrow> advance lo hi p (Suc k) = lo"
proof (induction k arbitrary: p)
  case 0
  then show ?case by (simp add: nextPos_def)
next
  case (Suc k)
  from Suc.prems have "nextPos lo hi p = p + 1" by (simp add: nextPos_def)
  moreover have "advance lo hi (p + 1) (Suc k) = lo"
    using Suc.prems by (intro Suc.IH) simp
  ultimately show ?case by simp
qed

lemma loopPositions_append:
  "loopPositions lo hi p (a + b)
     = loopPositions lo hi p a @ loopPositions lo hi (advance lo hi p a) b"
  by (induction a arbitrary: p) simp_all

lemma advance_add: "advance lo hi p (a + b) = advance lo hi (advance lo hi p a) b"
  by (induction a arbitrary: p) simp_all

lemma nextPos_inside: "lo \<le> p \<Longrightarrow> p < hi \<Longrightarrow> lo \<le> nextPos lo hi p \<and> nextPos lo hi p < hi"
  by (simp add: nextPos_def)

lemma advance_inside:
  "lo \<le> p \<Longrightarrow> p < hi \<Longrightarrow> lo \<le> advance lo hi p k \<and> advance lo hi p k < hi"
proof (induction k arbitrary: p)
  case 0
  then show ?case by simp
next
  case (Suc k)
  from nextPos_inside [OF Suc.prems] Suc.IH [of "nextPos lo hi p"] show ?case by simp
qed

lemma seamless_loopPositions: "seamless lo hi (loopPositions lo hi p k)"
proof (induction k arbitrary: p)
  case 0
  show ?case by simp
next
  case (Suc k)
  show ?case
  proof (cases k)
    case 0
    then show ?thesis by simp
  next
    case (Suc j)
    with Suc.IH [of "nextPos lo hi p"] show ?thesis by simp
  qed
qed

text \<open>The positions of one block that wraps: up to the loop end, then from the loop start.\<close>

lemma loopPositions_wrapped:
  assumes "lo \<le> p" and "p < hi" and "hi \<le> p + n" and "n \<le> hi - lo"
  shows "loopPositions lo hi p (nat n) = [p..hi - 1] @ [lo..lo + (p + n - hi) - 1]"
    and "advance lo hi p (nat n) = lo + (p + n - hi)"
proof -
  obtain k where k: "nat (hi - p) = Suc k"
    using assms(2) by (cases "nat (hi - p)") simp_all
  have split: "nat n = nat (hi - p) + nat (p + n - hi)"
    using assms by simp
  have first: "loopPositions lo hi p (nat (hi - p)) = [p..hi - 1]"
    using assms(2) loopPositions_straight [of p "nat (hi - p)" hi lo] by simp
  have seam: "advance lo hi p (nat (hi - p)) = lo"
    unfolding k using k assms(2) by (intro advance_to_end) linarith
  have rest: "lo + int (nat (p + n - hi)) \<le> hi"
    using assms by simp
  have second: "loopPositions lo hi lo (nat (p + n - hi)) = [lo..lo + (p + n - hi) - 1]"
    using assms(3) loopPositions_straight [OF rest, of lo] by simp
  show "loopPositions lo hi p (nat n) = [p..hi - 1] @ [lo..lo + (p + n - hi) - 1]"
    unfolding split loopPositions_append first seam second ..
  have "lo + int (nat (p + n - hi)) < hi"
    using assms by simp
  from advance_straight [OF this, of lo] assms(3)
  have "advance lo hi lo (nat (p + n - hi)) = lo + (p + n - hi)" by simp
  then show "advance lo hi p (nat n) = lo + (p + n - hi)"
    unfolding split advance_add seam .
qed

lemma rem64_wrapped:
  assumes "0 \<le> p + n" and "hi \<le> p + n" and "p + n < 2 * hi"
  shows "rem64 (p + n) hi = p + n - hi"
proof -
  have hi: "0 < hi" using assms by linarith
  have "(p + n) mod hi = (p + n - hi + hi) mod hi" by simp
  also have "\<dots> = (p + n - hi) mod hi" by (simp only: mod_add_self2)
  also have "\<dots> = p + n - hi" using assms by (intro mod_pos_pos_trivial) simp_all
  finally show ?thesis using assms(1) hi by (simp add: rem64_nonneg)
qed

lemma rem64_small: "0 \<le> a \<Longrightarrow> a < b \<Longrightarrow> rem64 a b = a"
  by (simp add: rem64_nonneg)

lemma blockFits_same_lengths:
  assumes "map length temp' = map length temp"
  shows "blockFits info temp' = blockFits info temp"
proof -
  have "length temp' = length temp"
    using arg_cong [OF assms, of length] by simp
  then show ?thesis
    using assms
    by (simp add: blockFits_def getNumChannels_def
        list_all_lengths [of "\<lambda>k. numSamples info \<le> int k"])
qed

lemma block_looping:
  fixes s :: "(int, 'a) LoopingAudioSource"
  defines "p \<equiv> input s" and "lo \<equiv> loopStartSample s" and "hi \<equiv> loopEndSample s"
  assumes loop: "isLoopingBetweenTimes s"
    and lo: "0 \<le> lo" "lo \<le> p" "p < hi"
    and n: "0 < numSamples info" "numSamples info \<le> hi - lo"
    and fits: "blockFits info (tempBuffer s)"
  shows "\<exists>s'. getNextAudioBlock (positionalSource content) info s
                 = Inr (mapChannels
                          (\<lambda>c. writeAt (nat (startSample info))
                                  (map (content c) (loopPositions lo hi p (nat (numSamples info)))))
                          (buffer info), s')
              \<and> input s' = advance lo hi p (nat (numSamples info))
              \<and> isLoopingBetweenTimes s' \<and> loopStartSample s' = lo \<and> loopEndSample s' = hi
              \<and> map length (tempBuffer s') = map length (tempBuffer s)"
proof (cases "p + numSamples info < hi")
  case True
  let ?n = "numSamples info"
  have "rem64 (p + ?n) hi = p + ?n"
    using True lo n by (intro rem64_small) simp_all
  then have "input s < loopStartSample s + rem64 (input s + ?n) (loopEndSample s)"
    using lo n by (simp add: p_def lo_def hi_def)
  moreover have "loopEndSample s \<noteq> 0" using lo by (simp add: p_def lo_def hi_def)
  ultimately have "getNextAudioBlock (positionalSource content) info s
           = Inr (mapChannels
                    (\<lambda>c. writeAt (nat (startSample info))
                            (map (content c) [input s..input s + numSamples info - 1]))
                    (buffer info),
                  s\<lparr>input := input s + numSamples info\<rparr>)"
    using loop n(1) fits by (intro direct_branch) (simp_all add: blockFits_def)
  moreover have "loopPositions lo hi p (nat ?n) = [p..p + ?n - 1]"
    using True n(1) loopPositions_straight [of p "nat ?n" hi lo] by simp
  moreover have "advance lo hi p (nat ?n) = p + ?n"
    using True n(1) advance_straight [of p "nat ?n" hi lo] by simp
  ultimately show ?thesis using loop by (simp add: p_def lo_def hi_def)
next
  case False
  let ?n = "numSamples info"
  let ?newEnd = "lo + (p + ?n - hi)"
  have wrap: "rem64 (p + ?n) hi = p + ?n - hi"
    using False lo n by (intro rem64_wrapped) simp_all
  have pos: "loopPositions lo hi p (nat ?n) = [p..hi - 1] @ [lo..?newEnd - 1]"
    and adv: "advance lo hi p (nat ?n) = ?newEnd"
    using False lo n loopPositions_wrapped [of lo p hi ?n] by simp_all
  have cap: "list_all (\<lambda>ch. (hi - p) + (?newEnd - lo) \<le> int (length ch)) (tempBuffer s)"
  proof -
    have "(hi - p) + (?newEnd - lo) = ?n" by simp
    then show ?thesis using fits by (simp add: blockFits_def)
  qed
  have "getNextAudioBlock (positionalSource content) info s
           = Inr (mapChannels
                    (\<lambda>c. writeAt (nat (startSample info))
                            (take (nat ?n)
                               (map (content c)
                                  ([input s..loopEndSample s - 1]
                                   @ [loopStartSample s..?newEnd - 1]))))
                    (buffer info),
                  s\<lparr>input := ?newEnd,
                    tempBuffer := mapChannels
                       (\<lambda>c. writeAt 0
                               (map (content c)
                                  ([input s..loopEndSample s - 1]
                                   @ [loopStartSample s..?newEnd - 1])))
                       (tempBuffer s),
                    tempInfo_startSample := loopEndSample s - input s,
                    tempInfo_numSamples := ?n\<rparr>)"
  proof (rule split_branch)
    show "isLoopingBetweenTimes s" by (rule loop)
    show "loopEndSample s \<noteq> 0" using lo by (simp add: hi_def)
    show "?newEnd = loopStartSample s + rem64 (input s + ?n) (loopEndSample s)"
      using wrap by (simp add: p_def lo_def hi_def)
    show "?newEnd \<le> input s" using n by (simp add: p_def)
    show "0 < loopEndSample s - input s" using lo by (simp add: p_def hi_def)
    show "0 \<le> ?newEnd - loopStartSample s" using False by (simp add: lo_def)
    show "0 < ?n" by (rule n)
    show "?n \<le> loopEndSample s - input s + (?newEnd - loopStartSample s)"
      by (simp add: p_def lo_def hi_def)
    show "list_all (\<lambda>ch. loopEndSample s - input s + (?newEnd - loopStartSample s)
                           \<le> int (length ch)) (tempBuffer s)"
      using cap by (simp add: p_def lo_def hi_def)
    show "0 \<le> startSample info" using fits by (simp add: blockFits_def)
    show "list_all (\<lambda>ch. startSample info + ?n \<le> int (length ch)) (buffer info)"
      using fits by (simp add: blockFits_def)
    show "getNumChannels (buffer info) \<le> getNumChannels (tempBuffer s)"
      using fits by (simp add: blockFits_def)
  qed
  moreover have "length ([p..hi - 1] @ [lo..?newEnd - 1]) = nat ?n"
    using lo n False by simp
  moreover have "map length (mapChannels
                       (\<lambda>c. writeAt 0 (map (content c) ([p..hi - 1] @ [lo..?newEnd - 1])))
                       (tempBuffer s)) = map length (tempBuffer s)"
  proof (rule list_all_length_mapChannels)
    fix c assume "c < length (tempBuffer s)"
    with cap have "(hi - p) + (?newEnd - lo) \<le> int (length (tempBuffer s ! c))"
      by (simp add: list_all_length)
    then show "length (writeAt 0 (map (content c) ([p..hi - 1] @ [lo..?newEnd - 1]))
                 (tempBuffer s ! c)) = length (tempBuffer s ! c)"
      using lo False by (simp add: length_writeAt)
  qed
  ultimately show ?thesis
    using loop pos adv by (simp add: p_def lo_def hi_def del: map_append)
qed

section \<open>Looped playback of successive blocks\<close>

lemma playBlocks_looping:
  fixes s :: "(int, 'a) LoopingAudioSource"
  assumes "isLoopingBetweenTimes s" and "0 \<le> loopStartSample s"
    and "loopStartSample s \<le> input s" and "input s < loopEndSample s"
    and "list_all (\<lambda>info. 0 < numSamples info
                    \<and> numSamples info \<le> loopEndSample s - loopStartSample s
                    \<and> blockFits info (tempBuffer s)
                    \<and> c < getNumChannels (buffer info)) infos"
  shows "\<exists>s'. playBlocks (positionalSource content) c infos s
                 = Inr (map (content c)
                          (loopPositions (loopStartSample s) (loopEndSample s) (input s)
                             (sum_list (map (\<lambda>info. nat (numSamples info)) infos))), s')
              \<and> input s' = advance (loopStartSample s) (loopEndSample s) (input s)
                              (sum_list (map (\<lambda>info. nat (numSamples info)) infos))"
  using assms
proof (induction infos arbitrary: s)
  case Nil
  show ?case by simp
next
  case (Cons info infos)
  let ?lo = "loopStartSample s" and ?hi = "loopEndSample s" and ?p = "input s"
  let ?n = "numSamples info"
  let ?rest = "sum_list (map (\<lambda>info. nat (numSamples info)) infos)"
  from Cons.prems(5) have info: "0 < ?n" "?n \<le> ?hi - ?lo" "blockFits info (tempBuffer s)"
    "c < length (buffer info)"
    by (simp_all add: getNumChannels_def)
  from block_looping [OF Cons.prems(1-4) info(1-3), of content]
  obtain s1 where s1:
    "getNextAudioBlock (positionalSource content) info s
       = Inr (mapChannels
                (\<lambda>c. writeAt (nat (startSample info))
                        (map (content c) (loopPositions ?lo ?hi ?p (nat ?n))))
                (buffer info), s1)"
    "input s1 = advance ?lo ?hi ?p (nat ?n)"
    "isLoopingBetweenTimes s1" "loopStartSample s1 = ?lo" "loopEndSample s1 = ?hi"
    "map length (tempBuffer s1) = map length (tempBuffer s)"
    by blast
  have inside: "?lo \<le> input s1" "input s1 < ?hi"
    using advance_inside [OF Cons.prems(3,4), of "nat ?n"] s1(2) by simp_all
  have "list_all (\<lambda>info. 0 < numSamples info
                    \<and> numSamples info \<le> loopEndSample s1 - loopStartSample s1
                    \<and> blockFits info (tempBuffer s1)
                    \<and> c < getNumChannels (buffer info)) infos"
    using Cons.prems(5) by (simp add: s1(4,5) blockFits_same_lengths [OF s1(6)])
  from Cons.IH [OF s1(3) _ _ _ this] Cons.prems(2) inside
  obtain s2 where s2:
    "playBlocks (positionalSource content) c infos s1
       = Inr (map (content c) (loopPositions ?lo ?hi (input s1) ?rest), s2)"
    "input s2 = advance ?lo ?hi (input s1) ?rest"
    by (auto simp: s1(4,5))
  have fit: "nat (startSample info) + length (map (content c) (loopPositions ?lo ?hi ?p (nat ?n)))
               \<le> length (buffer info ! c)"
  proof -
    from info(3,4) have "0 \<le> startSample info" "startSample info + ?n \<le> int (length (buffer info ! c))"
      by (simp_all add: blockFits_def list_all_length)
    then show ?thesis using info(1) by (simp add: length_loopPositions)
  qed
  have block: "take (nat ?n) (drop (nat (startSample info))
                 (mapChannels
                    (\<lambda>c. writeAt (nat (startSample info))
                            (map (content c) (loopPositions ?lo ?hi ?p (nat ?n))))
                    (buffer info) ! c))
               = map (content c) (loopPositions ?lo ?hi ?p (nat ?n))"
    using written_block [OF fit] info(4) by (simp add: nth_mapChannels length_loopPositions)
  show ?case
    using s1(1) s2 block
    by (simp add: s1(2) loopPositions_append advance_add)
qed

text \<open>
  Claim C1, as amended. Looping is enabled, the loop starts at a sample that is not
  negative, the input is the plain ramp and its cursor lies inside the loop region. Every
  request of the run asks for a positive number of samples that is at most the loop
  length and fits the buffers (the scratch buffer holds a block of that size). Then the
  run succeeds, and what the calls wrote for a channel, one block after the other, is the
  cursor's position followed by its successors inside the loop: after each value \<open>p\<close>
  comes \<open>p + 1\<close>, and after \<open>loopEndSample - 1\<close> comes \<open>loopStartSample\<close>. No value is
  skipped or repeated, and the input's cursor ends at the position that follows the last
  sample. This holds in particular for a region that \<open>setLoopTimes\<close> installed.
\<close>

theorem looped_ramp_is_seamless:
  assumes "isLoopingBetweenTimes s" and "0 \<le> loopStartSample s"
    and "loopStartSample s \<le> input s" and "input s < loopEndSample s"
    and "list_all (\<lambda>info. 0 < numSamples info
                    \<and> numSamples info \<le> loopEndSample s - loopStartSample s
                    \<and> blockFits info (tempBuffer s)
                    \<and> c < getNumChannels (buffer info)) infos"
  shows "\<exists>out s'. playBlocks rampSource c infos s = Inr (out, s')
           \<and> out = loopPositions (loopStartSample s) (loopEndSample s) (input s)
                     (sum_list (map (\<lambda>info. nat (numSamples info)) infos))
           \<and> seamless (loopStartSample s) (loopEndSample s) out
           \<and> input s' = advance (loopStartSample s) (loopEndSample s) (input s)
                           (sum_list (map (\<lambda>info. nat (numSamples info)) infos))"
  using playBlocks_looping [OF assms, of "\<lambda>c pos. pos"]
  by (auto simp: rampSource_def seamless_loopPositions)

lemma list_all_setSize:
  "list_all (\<lambda>ch. m \<le> int (length ch)) (setSize k n junk) = (k = 0 \<or> m \<le> int n)"
  by (auto simp: setSize_def list_all_iff)

lemma list_all_setSize_nat:
  "list_all (\<lambda>ch. m \<le> length ch) (setSize k n junk) = (k = 0 \<or> m \<le> n)"
  by (auto simp: setSize_def list_all_iff)

lemma getNumChannels_setSize: "getNumChannels (setSize k n junk) = k"
  by (simp add: getNumChannels_def setSize_def)

text \<open>The example player is what the constructor and the setters produce.\<close>

lemma rampLooper_reached:
  "setLoopTimes debug rampSource (of_int lo) (of_int hi)
     (setLoopBetweenTimes True
        (prepareToPlay rampSource silence 512 1
           (newLoopingAudioSource cursor t0 t1 r silence)))
   = (if debug \<and> \<not> lo < hi then Inl AssertionFailed else Inr (rampLooper lo hi cursor))"
  by (simp add: setLoopTimes_def setLoopTimesRounded_def setLoopBetweenTimes_def prepareToPlay_def
      newLoopingAudioSource_def rampLooper_def setNextReadPosition_def wrappedPosition_def
      getNextReadPosition_def rampSource_def positionalSource_def truncToInt64_def
      getNumSamples_setSize numeral_2_eq_2 Let_def)

text \<open>
  A run of the theorem: the loop over the samples 0 to 3, the cursor at 2, a block of 3
  and a block of 2.
\<close>

theorem looped_ramp_is_seamless_witness:
  "isLoopingBetweenTimes (rampLooper 0 4 2) \<and> 0 \<le> loopStartSample (rampLooper 0 4 2)
   \<and> loopStartSample (rampLooper 0 4 2) \<le> input (rampLooper 0 4 2)
   \<and> input (rampLooper 0 4 2) < loopEndSample (rampLooper 0 4 2)
   \<and> list_all (\<lambda>info. 0 < numSamples info
                    \<and> numSamples info
                         \<le> loopEndSample (rampLooper 0 4 2) - loopStartSample (rampLooper 0 4 2)
                    \<and> blockFits info (tempBuffer (rampLooper 0 4 2))
                    \<and> 0 < getNumChannels (buffer info))
         [\<lparr>buffer = [[9, 9, 9]], startSample = 0, numSamples = 3\<rparr>,
          \<lparr>buffer = [[9, 9]], startSample = 0, numSamples = 2\<rparr>]
   \<and> (\<exists>s'. playBlocks rampSource 0
               [\<lparr>buffer = [[9, 9, 9]], startSample = 0, numSamples = 3\<rparr>,
                \<lparr>buffer = [[9, 9]], startSample = 0, numSamples = 2\<rparr>]
               (rampLooper 0 4 2)
             = Inr ([2, 3, 0, 1, 2], s') \<and> input s' = 3)"
proof -
  have pre: "isLoopingBetweenTimes (rampLooper 0 4 2)" "0 \<le> loopStartSample (rampLooper 0 4 2)"
    "loopStartSample (rampLooper 0 4 2) \<le> input (rampLooper 0 4 2)"
    "input (rampLooper 0 4 2) < loopEndSample (rampLooper 0 4 2)"
    by (simp_all add: rampLooper_def)
  have reqs: "list_all (\<lambda>info. 0 < numSamples info
                    \<and> numSamples info
                         \<le> loopEndSample (rampLooper 0 4 2) - loopStartSample (rampLooper 0 4 2)
                    \<and> blockFits info (tempBuffer (rampLooper 0 4 2))
                    \<and> 0 < getNumChannels (buffer info))
         [\<lparr>buffer = [[9, 9, 9 :: int]], startSample = 0, numSamples = 3\<rparr>,
          \<lparr>buffer = [[9, 9]], startSample = 0, numSamples = 2\<rparr>]"
    by (simp add: rampLooper_def blockFits_def list_all_setSize getNumChannels_setSize)
       (simp add: getNumChannels_def)
  have pos: "loopPositions 0 4 2 5 = [2, 3, 0, 1, 2]" "advance 0 4 2 5 = 3"
    by (simp_all add: eval_nat_numeral nextPos_def)
  from looped_ramp_is_seamless [OF pre reqs] pos
  have "\<exists>s'. playBlocks rampSource 0
               [\<lparr>buffer = [[9, 9, 9]], startSample = 0, numSamples = 3\<rparr>,
                \<lparr>buffer = [[9, 9]], startSample = 0, numSamples = 2\<rparr>]
               (rampLooper 0 4 2)
             = Inr ([2, 3, 0, 1, 2], s') \<and> input s' = 3"
    by (auto simp: rampLooper_def simp del: playBlocks.simps)
  with pre reqs show ?thesis by blast
qed

text \<open>
  Claim C1 as stated fails in two ways. A block longer than the loop is taken for one that
  does not cross the loop end and is read straight through: in the loop over the samples
  0 to 3, five samples from the cursor 2 run on to 4, 5 and 6. And with a negative loop
  start a block that stays inside the loop is split: in the loop from -3 to 9, three
  samples from the cursor 5 leave the cursor at 5, and the next block repeats them. Both
  regions are installed by \<open>setLoopTimes\<close> with an end time after the start time.
\<close>

theorem looped_ramp_counterexample:
  "setLoopTimes True rampSource 0 4
      (setLoopBetweenTimes True
         (prepareToPlay rampSource silence 512 1 (newLoopingAudioSource 2 0 0 0 silence)))
     = Inr (rampLooper 0 4 2)
   \<and> map_sum id fst
        (playBlocks rampSource 0
           [\<lparr>buffer = [[9, 9, 9, 9, 9]], startSample = 0, numSamples = 5\<rparr>]
           (rampLooper 0 4 2))
     = Inr [2, 3, 4, 5, 6]
   \<and> \<not> seamless 0 4 [2, 3, 4, 5, 6]
   \<and> setLoopTimes True rampSource (-3) 10
        (setLoopBetweenTimes True
           (prepareToPlay rampSource silence 512 1 (newLoopingAudioSource 5 0 0 0 silence)))
     = Inr (rampLooper (-3) 10 5)
   \<and> map_sum id fst
        (playBlocks rampSource 0
           [\<lparr>buffer = [[9, 9, 9]], startSample = 0, numSamples = 3\<rparr>,
            \<lparr>buffer = [[9, 9, 9, 9]], startSample = 0, numSamples = 4\<rparr>]
           (rampLooper (-3) 10 5))
     = Inr [5, 6, 7, 5, 6, 7, 8]
   \<and> \<not> seamless (-3) 10 [5, 6, 7, 5, 6, 7, 8]"
proof -
  have r1: "setLoopTimes True rampSource 0 4
      (setLoopBetweenTimes True
         (prepareToPlay rampSource silence 512 1 (newLoopingAudioSource 2 0 0 0 silence)))
     = Inr (rampLooper 0 4 2)"
    using rampLooper_reached [of True 0 4 2 0 0 0] by simp
  have r2: "setLoopTimes True rampSource (-3) 10
        (setLoopBetweenTimes True
           (prepareToPlay rampSource silence 512 1 (newLoopingAudioSource 5 0 0 0 silence)))
     = Inr (rampLooper (-3) 10 5)"
    using rampLooper_reached [of True "-3" 10 5 0 0 0] by simp
  have long: "map_sum id fst
        (playBlocks rampSource 0
           [\<lparr>buffer = [[9, 9, 9, 9, 9]], startSample = 0, numSamples = 5\<rparr>]
           (rampLooper 0 4 2))
     = Inr [2, 3, 4, 5, 6]"
    by (simp add: getNextAudioBlock_def getNextReadPosition_def rampSource_def
        positionalSource_def positionalBlock_def mapChannels_def writeAt_def rampLooper_def
        rem64_def Let_def)
  let ?s = "rampLooper (-3) 10 5"
  define s1 where "s1 = ?s\<lparr>input := 5,
               tempBuffer := mapChannels
                  (\<lambda>c. writeAt 0 (map (\<lambda>pos. pos) ([5..10 - 1] @ [- 3..5 - 1])))
                  (tempBuffer ?s),
               tempInfo_startSample := 10 - 5,
               tempInfo_numSamples := 3\<rparr>"
  have b1: "getNextAudioBlock rampSource
              \<lparr>buffer = [[9, 9, 9]], startSample = 0, numSamples = 3\<rparr> ?s
            = Inr ([[5, 6, 7]], s1)"
    using split_branch
      [of ?s 5 "\<lparr>buffer = [[9, 9, 9 :: int]], startSample = 0, numSamples = 3\<rparr>"
          "\<lambda>c pos. pos"]
    by (simp add: s1_def rampLooper_def rem64_def list_all_setSize_nat getNumChannels_setSize
        rampSource_def)
       (simp add: getNumChannels_def mapChannels_def writeAt_def)
  have b2: "getNextAudioBlock rampSource
              \<lparr>buffer = [[9, 9, 9, 9]], startSample = 0, numSamples = 4\<rparr> s1
            = Inr ([[5, 6, 7, 8]], s1\<lparr>input := 9\<rparr>)"
    using direct_branch
      [of s1 "\<lparr>buffer = [[9, 9, 9, 9 :: int]], startSample = 0, numSamples = 4\<rparr>"
          "\<lambda>c pos. pos"]
    by (simp add: s1_def rampLooper_def rem64_def rampSource_def mapChannels_def writeAt_def)
  have short: "map_sum id fst
        (playBlocks rampSource 0
           [\<lparr>buffer = [[9, 9, 9]], startSample = 0, numSamples = 3\<rparr>,
            \<lparr>buffer = [[9, 9, 9, 9]], startSample = 0, numSamples = 4\<rparr>]
           (rampLooper (-3) 10 5))
     = Inr [5, 6, 7, 5, 6, 7, 8]"
    by (simp add: b1 b2)
  have gap1: "\<not> seamless 0 4 [2, 3, 4, 5, 6]" by (simp add: nextPos_def)
  have gap2: "\<not> seamless (-3) 10 [5, 6, 7, 5, 6, 7, 8]"
    by (simp add: nextPos_def)
  show ?thesis using r1 r2 long short gap1 gap2 by blast
qed

section \<open>A block that ends on the loop end\<close>

lemma rem64_self: "rem64 a a = 0"
  by (simp add: rem64_def)

text \<open>
  Claim C6. Looping is enabled, the cursor lies inside the loop region and the request asks
  for exactly the samples left before the loop end (the loop end is not 0, so the
  remainder is defined, and the request fits the buffers). Then the comparison
  \<open>newEnd > newStart\<close> is false, so the block is split; the call succeeds, the output holds
  the samples from the cursor up to the loop end, and the input's cursor is left at the
  loop start.
\<close>

theorem block_ending_on_loop_end_is_split:
  fixes s :: "(int, 'a) LoopingAudioSource"
  assumes "isLoopingBetweenTimes s" and "loopEndSample s \<noteq> 0"
    and "loopStartSample s \<le> input s" and "input s < loopEndSample s"
    and "numSamples info = loopEndSample s - input s"
    and "blockFits info (tempBuffer s)"
  shows "\<not> loopStartSample s + rem64 (input s + numSamples info) (loopEndSample s) > input s
         \<and> (\<exists>s'. getNextAudioBlock (positionalSource content) info s
                     = Inr (mapChannels
                              (\<lambda>c. writeAt (nat (startSample info))
                                      (map (content c) [input s..loopEndSample s - 1]))
                              (buffer info), s')
                  \<and> input s' = loopStartSample s)"
proof -
  let ?lo = "loopStartSample s" and ?hi = "loopEndSample s" and ?p = "input s"
  have ne: "?lo = ?lo + rem64 (?p + numSamples info) ?hi"
    using assms(5) by (simp add: rem64_self)
  have len: "nat (numSamples info) = length [?p..?hi - 1]"
    using assms(5) by simp
  have "getNextAudioBlock (positionalSource content) info s
           = Inr (mapChannels
                    (\<lambda>c. writeAt (nat (startSample info))
                            (take (nat (numSamples info))
                               (map (content c) ([?p..?hi - 1] @ [?lo..?lo - 1]))))
                    (buffer info),
                  s\<lparr>input := ?lo,
                    tempBuffer := mapChannels
                       (\<lambda>c. writeAt 0 (map (content c) ([?p..?hi - 1] @ [?lo..?lo - 1])))
                       (tempBuffer s),
                    tempInfo_startSample := ?hi - ?p,
                    tempInfo_numSamples := numSamples info\<rparr>)"
    using assms(1,2) ne
  proof (rule split_branch)
    show "?lo \<le> ?p" by (rule assms(3))
    show "0 < ?hi - ?p" using assms(4) by simp
    show "0 \<le> ?lo - ?lo" by simp
    show "0 < numSamples info" using assms(4,5) by simp
    show "numSamples info \<le> ?hi - ?p + (?lo - ?lo)" using assms(5) by simp
    show "list_all (\<lambda>ch. ?hi - ?p + (?lo - ?lo) \<le> int (length ch)) (tempBuffer s)"
      using assms(5,6) by (simp add: blockFits_def)
    show "0 \<le> startSample info" using assms(6) by (simp add: blockFits_def)
    show "list_all (\<lambda>ch. startSample info + numSamples info \<le> int (length ch)) (buffer info)"
      using assms(6) by (simp add: blockFits_def)
    show "getNumChannels (buffer info) \<le> getNumChannels (tempBuffer s)"
      using assms(6) by (simp add: blockFits_def)
  qed
  then have "\<exists>s'. getNextAudioBlock (positionalSource content) info s
                     = Inr (mapChannels
                              (\<lambda>c. writeAt (nat (startSample info))
                                      (map (content c) [?p..?hi - 1]))
                              (buffer info), s')
                  \<and> input s' = ?lo"
    using len by simp
  moreover have "\<not> ?lo + rem64 (?p + numSamples info) ?hi > ?p"
    using assms(3,5) by (simp add: rem64_self)
  ultimately show ?thesis by blast
qed

text \<open>A run of the theorem: the loop from 10 to 19, the cursor at 17, three samples.\<close>

theorem block_ending_on_loop_end_is_split_witness:
  "isLoopingBetweenTimes (rampLooper 10 20 17) \<and> loopEndSample (rampLooper 10 20 17) \<noteq> 0
   \<and> loopStartSample (rampLooper 10 20 17) \<le> input (rampLooper 10 20 17)
   \<and> input (rampLooper 10 20 17) < loopEndSample (rampLooper 10 20 17)
   \<and> numSamples \<lparr>buffer = [[9, 9, 9 :: int]], startSample = 0, numSamples = 3\<rparr>
       = loopEndSample (rampLooper 10 20 17) - input (rampLooper 10 20 17)
   \<and> blockFits \<lparr>buffer = [[9, 9, 9]], startSample = 0, numSamples = 3\<rparr>
        (tempBuffer (rampLooper 10 20 17))
   \<and> \<not> 10 + rem64 (17 + 3) 20 > 17
   \<and> (\<exists>s'. getNextAudioBlock rampSource
                \<lparr>buffer = [[9, 9, 9]], startSample = 0, numSamples = 3\<rparr> (rampLooper 10 20 17)
              = Inr ([[17, 18, 19]], s')
            \<and> input s' = 10)"
proof -
  let ?s = "rampLooper 10 20 17"
  let ?info = "\<lparr>buffer = [[9, 9, 9 :: int]], startSample = 0, numSamples = 3\<rparr>"
  have pre: "isLoopingBetweenTimes ?s" "loopEndSample ?s \<noteq> 0"
    "loopStartSample ?s \<le> input ?s" "input ?s < loopEndSample ?s"
    "numSamples ?info = loopEndSample ?s - input ?s"
    by (simp_all add: rampLooper_def)
  have fits: "blockFits ?info (tempBuffer ?s)"
    by (simp add: rampLooper_def blockFits_def list_all_setSize_nat getNumChannels_setSize)
       (simp add: getNumChannels_def)
  from block_ending_on_loop_end_is_split [OF pre fits, of "\<lambda>c pos. pos"]
  have "\<not> 10 + rem64 (17 + 3) 20 > 17
   \<and> (\<exists>s'. getNextAudioBlock rampSource ?info ?s = Inr ([[17, 18, 19]], s') \<and> input s' = 10)"
    by (simp add: rampLooper_def rampSource_def mapChannels_def writeAt_def)
  with pre fits show ?thesis by blast
qed

section \<open>The two reads of a split block\<close>

text \<open>
  Claim C10. Looping is enabled, \<open>0 \<le> loopStartSample < loopEndSample\<close>, the cursor lies in
  the loop region, the request asks for a positive number of samples that is at most the
  loop length and fits the buffers, and the call takes the boundary-crossing branch. Then
  the two lengths \<open>numEndSamps\<close> and \<open>numStartSamps\<close> are not negative and add up to the
  request; the call succeeds; the scratch buffer holds, from its slot 0 on, the samples
  up to the loop end followed by those from the loop start, as many as were requested,
  and the output holds the same; \<open>tempInfo.startSample\<close> is left at \<open>numEndSamps\<close> and the
  input's cursor at \<open>loopStartSample + numStartSamps\<close>.
\<close>

theorem crossing_branch_sub_reads:
  fixes s :: "(int, 'a) LoopingAudioSource"
  assumes "isLoopingBetweenTimes s"
    and "0 \<le> loopStartSample s" and "loopStartSample s < loopEndSample s"
    and "loopStartSample s \<le> input s" and "input s < loopEndSample s"
    and "0 < numSamples info" and "numSamples info \<le> loopEndSample s - loopStartSample s"
    and "\<not> loopStartSample s + rem64 (input s + numSamples info) (loopEndSample s) > input s"
    and "blockFits info (tempBuffer s)"
  shows "let newEnd = loopStartSample s + rem64 (input s + numSamples info) (loopEndSample s);
             numEndSamps = loopEndSample s - input s;
             numStartSamps = newEnd - loopStartSample s
         in 0 \<le> numEndSamps \<and> 0 \<le> numStartSamps
            \<and> numEndSamps + numStartSamps = numSamples info
            \<and> (\<exists>s'. getNextAudioBlock (positionalSource content) info s
                        = Inr (mapChannels
                                 (\<lambda>c. writeAt (nat (startSample info))
                                         (map (content c)
                                            ([input s..loopEndSample s - 1]
                                             @ [loopStartSample s..newEnd - 1])))
                                 (buffer info), s')
                     \<and> input s' = loopStartSample s + numStartSamps
                     \<and> tempInfo_startSample s' = numEndSamps
                     \<and> tempBuffer s'
                         = mapChannels
                             (\<lambda>c. writeAt 0
                                     (map (content c)
                                        ([input s..loopEndSample s - 1]
                                         @ [loopStartSample s..newEnd - 1])))
                             (tempBuffer s)
                     \<and> length ([input s..loopEndSample s - 1] @ [loopStartSample s..newEnd - 1])
                         = nat (numSamples info))"
proof -
  let ?lo = "loopStartSample s" and ?hi = "loopEndSample s" and ?p = "input s"
  let ?n = "numSamples info"
  define newEnd where "newEnd = ?lo + rem64 (?p + ?n) ?hi"
  have over: "?hi \<le> ?p + ?n"
  proof (rule ccontr)
    assume "\<not> ?hi \<le> ?p + ?n"
    then have "rem64 (?p + ?n) ?hi = ?p + ?n"
      using assms(2,4,6) by (intro rem64_small) simp_all
    with assms(2,6,8) show False by simp
  qed
  have wrap: "rem64 (?p + ?n) ?hi = ?p + ?n - ?hi"
    using over assms(2-7) by (intro rem64_wrapped) simp_all
  then have ne: "newEnd = ?lo + (?p + ?n - ?hi)" by (simp add: newEnd_def)
  have sums: "0 \<le> ?hi - ?p" "0 \<le> newEnd - ?lo" "(?hi - ?p) + (newEnd - ?lo) = ?n"
    using over assms(5) ne by simp_all
  have "getNextAudioBlock (positionalSource content) info s
           = Inr (mapChannels
                    (\<lambda>c. writeAt (nat (startSample info))
                            (take (nat ?n)
                               (map (content c) ([?p..?hi - 1] @ [?lo..newEnd - 1]))))
                    (buffer info),
                  s\<lparr>input := newEnd,
                    tempBuffer := mapChannels
                       (\<lambda>c. writeAt 0 (map (content c) ([?p..?hi - 1] @ [?lo..newEnd - 1])))
                       (tempBuffer s),
                    tempInfo_startSample := ?hi - ?p,
                    tempInfo_numSamples := ?n\<rparr>)"
  proof (rule split_branch)
    show "isLoopingBetweenTimes s" by (rule assms(1))
    show "?hi \<noteq> 0" using assms(2,3) by simp
    show "newEnd = ?lo + rem64 (?p + ?n) ?hi" by (rule newEnd_def)
    show "newEnd \<le> ?p" using assms(8) by (simp add: newEnd_def)
    show "0 < ?hi - ?p" using assms(5) by simp
    show "0 \<le> newEnd - ?lo" by (rule sums)
    show "0 < ?n" by (rule assms(6))
    show "?n \<le> ?hi - ?p + (newEnd - ?lo)" using sums(3) by simp
    show "list_all (\<lambda>ch. ?hi - ?p + (newEnd - ?lo) \<le> int (length ch)) (tempBuffer s)"
      using assms(9) sums(3) by (simp add: blockFits_def)
    show "0 \<le> startSample info" using assms(9) by (simp add: blockFits_def)
    show "list_all (\<lambda>ch. startSample info + ?n \<le> int (length ch)) (buffer info)"
      using assms(9) by (simp add: blockFits_def)
    show "getNumChannels (buffer info) \<le> getNumChannels (tempBuffer s)"
      using assms(9) by (simp add: blockFits_def)
  qed
  moreover have len: "length ([?p..?hi - 1] @ [?lo..newEnd - 1]) = nat ?n"
    using sums assms(5) by simp
  ultimately have "\<exists>s'. getNextAudioBlock (positionalSource content) info s
                        = Inr (mapChannels
                                 (\<lambda>c. writeAt (nat (startSample info))
                                         (map (content c) ([?p..?hi - 1] @ [?lo..newEnd - 1])))
                                 (buffer info), s')
                     \<and> input s' = ?lo + (newEnd - ?lo)
                     \<and> tempInfo_startSample s' = ?hi - ?p
                     \<and> tempBuffer s'
                         = mapChannels
                             (\<lambda>c. writeAt 0 (map (content c) ([?p..?hi - 1] @ [?lo..newEnd - 1])))
                             (tempBuffer s)
                     \<and> length ([?p..?hi - 1] @ [?lo..newEnd - 1]) = nat ?n"
    by (simp del: map_append length_append)
  with sums show ?thesis
    unfolding Let_def newEnd_def by blast
qed

text \<open>A run of the theorem: the loop from 10 to 19, the cursor at 17, five samples.\<close>

theorem crossing_branch_sub_reads_witness:
  "isLoopingBetweenTimes (rampLooper 10 20 17)
   \<and> 0 \<le> loopStartSample (rampLooper 10 20 17)
   \<and> loopStartSample (rampLooper 10 20 17) < loopEndSample (rampLooper 10 20 17)
   \<and> loopStartSample (rampLooper 10 20 17) \<le> input (rampLooper 10 20 17)
   \<and> input (rampLooper 10 20 17) < loopEndSample (rampLooper 10 20 17)
   \<and> 0 < numSamples \<lparr>buffer = [[9, 9, 9, 9, 9 :: int]], startSample = 0, numSamples = 5\<rparr>
   \<and> numSamples \<lparr>buffer = [[9, 9, 9, 9, 9 :: int]], startSample = 0, numSamples = 5\<rparr>
       \<le> loopEndSample (rampLooper 10 20 17) - loopStartSample (rampLooper 10 20 17)
   \<and> \<not> 10 + rem64 (17 + 5) 20 > 17
   \<and> blockFits \<lparr>buffer = [[9, 9, 9, 9, 9]], startSample = 0, numSamples = 5\<rparr>
        (tempBuffer (rampLooper 10 20 17))
   \<and> 20 - 17 + (10 + rem64 (17 + 5) 20 - 10) = (5 :: int)
   \<and> (\<exists>s'. getNextAudioBlock rampSource
                \<lparr>buffer = [[9, 9, 9, 9, 9]], startSample = 0, numSamples = 5\<rparr>
                (rampLooper 10 20 17)
              = Inr ([[17, 18, 19, 10, 11]], s')
            \<and> input s' = 12 \<and> tempInfo_startSample s' = 3)"
proof -
  let ?s = "rampLooper 10 20 17"
  let ?info = "\<lparr>buffer = [[9, 9, 9, 9, 9 :: int]], startSample = 0, numSamples = 5\<rparr>"
  have r: "rem64 22 20 = 2" by (simp add: rem64_def)
  have pre: "isLoopingBetweenTimes ?s" "0 \<le> loopStartSample ?s"
    "loopStartSample ?s < loopEndSample ?s"
    "loopStartSample ?s \<le> input ?s" "input ?s < loopEndSample ?s"
    "0 < numSamples ?info" "numSamples ?info \<le> loopEndSample ?s - loopStartSample ?s"
    "\<not> loopStartSample ?s + rem64 (input ?s + numSamples ?info) (loopEndSample ?s) > input ?s"
    by (simp_all add: rampLooper_def r)
  have fits: "blockFits ?info (tempBuffer ?s)"
    by (simp add: rampLooper_def blockFits_def list_all_setSize_nat getNumChannels_setSize)
       (simp add: getNumChannels_def)
  from crossing_branch_sub_reads [OF pre fits, of "\<lambda>c pos. pos"]
  have "\<exists>s'. getNextAudioBlock rampSource ?info ?s = Inr ([[17, 18, 19, 10, 11]], s')
            \<and> input s' = 12 \<and> tempInfo_startSample s' = 3"
    by (auto simp: Let_def rampLooper_def rampSource_def mapChannels_def writeAt_def r)
  with pre fits r show ?thesis by (simp add: rampLooper_def)
qed

section \<open>The scenario at 44100 samples per second\<close>

lemma mapChannels_stereo:
  "mapChannels f (setSize 2 n junk) = [f 0 (map (junk 0) [0..<n]), f 1 (map (junk 1) [0..<n])]"
  by (simp add: mapChannels_def setSize_def numeral_2_eq_2 upt_conv_Cons del: upt_Suc)

lemma writeAt_whole: "length new = length ch \<Longrightarrow> writeAt 0 new ch = new"
  by (simp add: writeAt_def)

lemma wrappedPosition_cursor:
  "wrappedPosition ops (getNextReadPosition ops s) s = getNextReadPosition ops s"
  by (simp add: wrappedPosition_def Let_def)

lemma setLoopTimes_positional:
  "setLoopTimes debug (positionalSource content) startTime endTime s
     = (if debug \<and> \<not> endTime > startTime then Inl AssertionFailed
        else Inr (s\<lparr>loopStartTime := startTime, loopEndTime := endTime,
                    loopStartSample := truncToInt64 (startTime * currentSampleRate s),
                    loopEndSample := truncToInt64 (endTime * currentSampleRate s)\<rparr>))"
  by (simp add: setLoopTimes_def setLoopTimesRounded_def setNextReadPosition_def
      wrappedPosition_cursor Let_def)
     (simp add: getNextReadPosition_def positionalSource_def)

text \<open>
  Claim C2. A player prepared for blocks of 1000 samples at 44100 samples per second, its
  input's cursor at sample 881500, looping enabled and the loop set to the seconds 10 to
  20: the loop runs from sample 441000 to sample 882000. A request for 1000 samples into
  a stereo buffer then yields, on either channel, the samples of the positions 881500 to
  881999 followed by the samples of the positions 441000 to 441499, and leaves the
  input's cursor at 441500.
\<close>

theorem seam_scenario:
  "\<exists>s out s'.
      setLoopTimes debug (positionalSource content) 10 20
        (setLoopBetweenTimes True
           (prepareToPlay (positionalSource content) junk 1000 44100
              (newLoopingAudioSource 881500 t0 t1 r junk)))
        = Inr s
      \<and> loopStartSample s = 441000 \<and> loopEndSample s = 882000 \<and> input s = 881500
      \<and> getNextAudioBlock (positionalSource content)
            \<lparr>buffer = setSize 2 1000 callerJunk, startSample = 0, numSamples = 1000\<rparr> s
          = Inr (out, s')
      \<and> out = [map (content 0) ([881500..881999] @ [441000..441499]),
                map (content 1) ([881500..881999] @ [441000..441499])]
      \<and> input s' = 441500"
proof -
  let ?ops = "positionalSource content"
  let ?info = "\<lparr>buffer = setSize 2 1000 callerJunk, startSample = 0, numSamples = 1000\<rparr>"
  define s0 where "s0 = setLoopBetweenTimes True
           (prepareToPlay ?ops junk 1000 44100 (newLoopingAudioSource 881500 t0 t1 r junk))"
  define s where "s = s0\<lparr>loopStartTime := 10, loopEndTime := 20,
                        loopStartSample := 441000, loopEndSample := 882000\<rparr>"
  have s0: "input s0 = 881500" "isLoopingBetweenTimes s0" "currentSampleRate s0 = 44100"
    "tempBuffer s0 = setSize 2 1000 junk"
    by (simp_all add: s0_def setLoopBetweenTimes_def prepareToPlay_def newLoopingAudioSource_def
        positionalSource_def getNumSamples_setSize numeral_2_eq_2 Let_def)
  have set: "setLoopTimes debug ?ops 10 20 s0 = Inr s"
    by (simp add: setLoopTimes_positional truncToInt64_def s0 s_def)
  have s: "input s = 881500" "isLoopingBetweenTimes s" "loopStartSample s = 441000"
    "loopEndSample s = 882000" "tempBuffer s = setSize 2 1000 junk"
    by (simp_all add: s_def s0)
  have r: "rem64 882500 882000 = 500" by (simp add: rem64_def)
  have block: "getNextAudioBlock ?ops ?info s
           = Inr (mapChannels
                    (\<lambda>c. writeAt (nat (startSample ?info))
                            (take (nat (numSamples ?info))
                               (map (content c)
                                  ([input s..loopEndSample s - 1]
                                   @ [loopStartSample s..441500 - 1]))))
                    (buffer ?info),
                  s\<lparr>input := 441500,
                    tempBuffer := mapChannels
                       (\<lambda>c. writeAt 0
                               (map (content c)
                                  ([input s..loopEndSample s - 1]
                                   @ [loopStartSample s..441500 - 1])))
                       (tempBuffer s),
                    tempInfo_startSample := loopEndSample s - input s,
                    tempInfo_numSamples := numSamples ?info\<rparr>)"
    by (rule split_branch)
       (simp_all add: s r list_all_setSize list_all_setSize_nat getNumChannels_setSize)
  have "getNextAudioBlock ?ops ?info s
          = Inr ([map (content 0) ([881500..881999] @ [441000..441499]),
                  map (content 1) ([881500..881999] @ [441000..441499])],
                 s\<lparr>input := 441500,
                    tempBuffer := mapChannels
                       (\<lambda>c. writeAt 0
                               (map (content c)
                                  ([input s..loopEndSample s - 1]
                                   @ [loopStartSample s..441500 - 1])))
                       (tempBuffer s),
                    tempInfo_startSample := loopEndSample s - input s,
                    tempInfo_numSamples := numSamples ?info\<rparr>)"
    unfolding block
    by (simp add: s mapChannels_stereo writeAt_whole del: upto_rec_numeral map_append)
  with set s show ?thesis unfolding s0_def by fastforce
qed

section \<open>Setting the read position\<close>



section \<open>Setting the loop times\<close>

text \<open>
  Claim C3, evaluated where the code departs from it. A looping ramp player with the loop
  from sample 0 to sample 100 and the cursor at 50, inside it, is given the loop times
  200 and 300 at sample rate 1. The bounds become 200 and 300 as the claim says, but the
  call \<open>setNextReadPosition (getNextReadPosition ())\<close> forwards the cursor unchanged: it
  stays at 50, outside the new region.
\<close>

theorem setLoopTimes_leaves_cursor_outside:
  "setLoopTimes True rampSource 0 100
      (setLoopBetweenTimes True
         (prepareToPlay rampSource silence 512 1 (newLoopingAudioSource 50 0 0 0 silence)))
     = Inr (rampLooper 0 100 50)
   \<and> loopStartSample (rampLooper 0 100 50) \<le> getNextReadPosition rampSource (rampLooper 0 100 50)
   \<and> getNextReadPosition rampSource (rampLooper 0 100 50) < loopEndSample (rampLooper 0 100 50)
   \<and> setLoopTimes True rampSource 200 300 (rampLooper 0 100 50) = Inr (rampLooper 200 300 50)
   \<and> loopStartSample (rampLooper 200 300 50) = 200
   \<and> loopEndSample (rampLooper 200 300 50) = 300
   \<and> getNextReadPosition rampSource (rampLooper 200 300 50) = 50"
proof -
  have "setLoopTimes True rampSource 0 100
      (setLoopBetweenTimes True
         (prepareToPlay rampSource silence 512 1 (newLoopingAudioSource 50 0 0 0 silence)))
     = Inr (rampLooper 0 100 50)"
    using rampLooper_reached [of True 0 100 50 0 0 0] by simp
  moreover have "setLoopTimes True rampSource 200 300 (rampLooper 0 100 50)
                   = Inr (rampLooper 200 300 50)"
    by (simp add: rampSource_def setLoopTimes_positional truncToInt64_def rampLooper_def)
  ultimately show ?thesis
    by (simp add: rampLooper_def getNextReadPosition_def rampSource_def positionalSource_def)
qed

text \<open>The conversion to \<open>int64\<close> keeps the order of the products.\<close>

lemma truncToInt64_mono: "x \<le> y \<Longrightarrow> truncToInt64 x \<le> truncToInt64 y"
proof -
  assume xy: "x \<le> y"
  consider "0 \<le> x" | "x < 0" "0 \<le> y" | "y < 0" using xy by linarith
  then show ?thesis
  proof cases
    case 1
    with xy show ?thesis by (simp add: truncToInt64_def floor_mono)
  next
    case 2
    then have "\<lceil>x\<rceil> \<le> 0" and "0 \<le> \<lfloor>y\<rfloor>" by simp_all
    then have "\<lceil>x\<rceil> \<le> \<lfloor>y\<rfloor>" by linarith
    with 2 show ?thesis by (simp add: truncToInt64_def)
  next
    case 3
    with xy show ?thesis by (simp add: truncToInt64_def ceiling_mono)
  qed
qed

lemma loop_fields_setNextReadPosition:
  "loopStartSample (setNextReadPosition ops p s) = loopStartSample s"
  "loopEndSample (setNextReadPosition ops p s) = loopEndSample s"
  "loopStartTime (setNextReadPosition ops p s) = loopStartTime s"
  "loopEndTime (setNextReadPosition ops p s) = loopEndTime s"
  "currentSampleRate (setNextReadPosition ops p s) = currentSampleRate s"
  "isLoopingBetweenTimes (setNextReadPosition ops p s) = isLoopingBetweenTimes s"
  by (simp_all add: setNextReadPosition_def)

text \<open>
  Claim C4, as amended. \<open>setLoopTimes\<close> only asserts that the end time is after the start
  time and never clamps. Given an end time that is not after the start time, the call
  fails on the assertion where it is checked and stores nothing; where it is not
  checked, the call succeeds and stores as bounds the two products, each rounded to a
  \<open>double\<close> and truncated. The rounding keeps the order of the products, so with a sample
  rate that is not negative \<open>loopEndSample \<le> loopStartSample\<close>: the degenerate region is
  installed, and keeping it from \<open>getNextAudioBlock\<close> is left to the caller.
\<close>

theorem setLoopTimes_only_asserts:
  assumes "endTime \<le> startTime" and "mono roundToDouble"
  shows "setLoopTimesRounded roundToDouble True ops startTime endTime s = Inl AssertionFailed
         \<and> (\<exists>s'. setLoopTimesRounded roundToDouble False ops startTime endTime s = Inr s'
                \<and> loopStartSample s'
                    = truncToInt64 (roundToDouble (startTime * currentSampleRate s))
                \<and> loopEndSample s'
                    = truncToInt64 (roundToDouble (endTime * currentSampleRate s))
                \<and> (if 0 \<le> currentSampleRate s then loopEndSample s' \<le> loopStartSample s'
                    else loopStartSample s' \<le> loopEndSample s'))"
proof -
  have "0 \<le> currentSampleRate s \<Longrightarrow>
          truncToInt64 (roundToDouble (endTime * currentSampleRate s))
            \<le> truncToInt64 (roundToDouble (startTime * currentSampleRate s))"
    using assms by (intro truncToInt64_mono monoD [of roundToDouble] mult_right_mono)
  moreover have "\<not> 0 \<le> currentSampleRate s \<Longrightarrow>
          truncToInt64 (roundToDouble (startTime * currentSampleRate s))
            \<le> truncToInt64 (roundToDouble (endTime * currentSampleRate s))"
    using assms
    by (intro truncToInt64_mono monoD [of roundToDouble] mult_right_mono_neg) simp_all
  ultimately show ?thesis
    using assms(1) by (simp add: setLoopTimesRounded_def Let_def loop_fields_setNextReadPosition)
qed

text \<open>
  A run of the theorem: the loop times 20 and 10 at sample rate 1, whose products need no
  rounding.
\<close>

theorem setLoopTimes_only_asserts_witness:
  "(10 :: real) \<le> 20 \<and> mono (\<lambda>product :: real. product)
   \<and> setLoopTimesRounded (\<lambda>product. product) True rampSource 20 10 (rampLooper 0 100 50)
       = Inl AssertionFailed
   \<and> setLoopTimesRounded (\<lambda>product. product) False rampSource 20 10 (rampLooper 0 100 50)
       = Inr (rampLooper 20 10 50)
   \<and> loopEndSample (rampLooper 20 10 50) \<le> loopStartSample (rampLooper 20 10 50)"
proof -
  have order: "mono (\<lambda>product :: real. product)" by (simp add: mono_def)
  have "setLoopTimes False rampSource 20 10 (rampLooper 0 100 50) = Inr (rampLooper 20 10 50)"
    by (simp add: rampSource_def setLoopTimes_positional truncToInt64_def rampLooper_def)
  then have stored: "setLoopTimesRounded (\<lambda>product. product) False rampSource 20 10
                       (rampLooper 0 100 50) = Inr (rampLooper 20 10 50)"
    by (simp add: setLoopTimes_def)
  from setLoopTimes_only_asserts [of 10 20 "\<lambda>product. product" rampSource "rampLooper 0 100 50"]
    order stored
  show ?thesis by (simp add: rampLooper_def)
qed

text \<open>
  Claim C4 as stated fails where the assertion is not checked: the loop times 20 and 10
  are stored as the bounds 20 and 10, and the loop times 0 and 0 as the bounds 0 and 0,
  which the next request then divides by.
\<close>

theorem setLoopTimes_stores_degenerate_region:
  "setLoopTimes False rampSource 20 10 (rampLooper 0 100 50) = Inr (rampLooper 20 10 50)
   \<and> loopEndSample (rampLooper 20 10 50) \<le> loopStartSample (rampLooper 20 10 50)
   \<and> setLoopTimes False rampSource 0 0 (rampLooper 20 10 50) = Inr (rampLooper 0 0 50)
   \<and> loopEndSample (rampLooper 0 0 50) \<le> loopStartSample (rampLooper 0 0 50)
   \<and> getNextAudioBlock rampSource \<lparr>buffer = [[9, 9, 9]], startSample = 0, numSamples = 3\<rparr>
        (rampLooper 0 0 50) = Inl DivideByZero"
  by (simp add: rampSource_def setLoopTimes_positional truncToInt64_def rampLooper_def
      getNextAudioBlock_def)

text \<open>
  Claim C8. For an input that stays as it is when it is sent to its own cursor, a second
  \<open>setLoopTimes\<close> with the same times changes nothing: the state after it, loop times,
  sample bounds and input with its cursor, is the state after the first call, so
  whatever follows is the same.
\<close>

theorem setLoopTimes_idempotent:
  assumes "seekToCursorIsNoop ops"
    and "setLoopTimes debug ops startTime endTime s = Inr s1"
  shows "setLoopTimes debug ops startTime endTime s1 = Inr s1"
proof -
  have noop: "\<And>i. src_setNextReadPosition ops (src_getNextReadPosition ops i) i = i"
    using assms(1) by (simp add: seekToCursorIsNoop_def)
  have stay: "\<And>t. setNextReadPosition ops (getNextReadPosition ops t) t = t"
    by (simp add: setNextReadPosition_def wrappedPosition_cursor)
       (simp add: getNextReadPosition_def noop)
  from assms(2) have ok: "\<not> (debug \<and> \<not> endTime > startTime)"
    and s1: "s1 = s\<lparr>loopStartTime := startTime, loopEndTime := endTime,
                      loopStartSample := truncToInt64 (startTime * currentSampleRate s),
                      loopEndSample := truncToInt64 (endTime * currentSampleRate s)\<rparr>"
    by (auto simp: setLoopTimes_def setLoopTimesRounded_def Let_def stay split: if_splits)
  show ?thesis
    using ok by (simp add: setLoopTimes_def setLoopTimesRounded_def Let_def stay) (simp add: s1)
qed

text \<open>A run of the theorem: the ramp player, the loop times 10 and 20, twice.\<close>

theorem setLoopTimes_idempotent_witness:
  "seekToCursorIsNoop rampSource
   \<and> setLoopTimes True rampSource 10 20 (rampLooper 0 100 50) = Inr (rampLooper 10 20 50)
   \<and> setLoopTimes True rampSource 10 20 (rampLooper 10 20 50) = Inr (rampLooper 10 20 50)"
proof -
  have law: "seekToCursorIsNoop rampSource"
    by (simp add: seekToCursorIsNoop_def rampSource_def positionalSource_def)
  have first: "setLoopTimes True rampSource 10 20 (rampLooper 0 100 50)
                 = Inr (rampLooper 10 20 50)"
    by (simp add: rampSource_def setLoopTimes_positional truncToInt64_def rampLooper_def)
  from setLoopTimes_idempotent [OF law first] law first show ?thesis by simp
qed

end
